theory Spec2Isabelle
  imports Complex_Main "HOL-Library.Sublist"
begin

section \<open>Cookie box quantity discount: the data model\<close>

text \<open>
  The function input as the source reads it: the answer to the input query of the function,
  a cart with its lines and the discount with its classes. A field that the source reads
  through \<^verbatim>\<open>?.\<close> or through \<^verbatim>\<open>|| ''\<close> may be missing and is an \<open>option\<close>; the
  others are always there. The quantity of a line is a GraphQL \<^verbatim>\<open>Int\<close>.

  The metafield \<^verbatim>\<open>value\<close>, the identifier \<^verbatim>\<open>id\<close> and \<^verbatim>\<open>__typename\<close> carry a
  suffix or lose their underscores, their plain names being taken. For the same reason
  a local variable of the source whose name is a field here carries a prime.
\<close>

record metafield =
  value_mf :: "string option"

record merchandise =
  typename :: string
  title :: "string option"
  sku :: "string option"
  boxSize :: "metafield option"

record line =
  id_line :: string
  quantity :: int
  merchandise :: "merchandise option"

record cart =
  lines :: "line list option"

record discount_context =
  discountClasses :: "string list option"

record input =
  discount :: "discount_context option"
  cart :: "cart option"

text \<open>The result: \<^verbatim>\<open>{ operations: [ { productDiscountsAdd: { ... } } ] }\<close>.\<close>

datatype target = CartLine string

datatype candidate_value = FixedAmount string

record candidate =
  targets :: "target list"
  message :: string
  value_cand :: candidate_value

record productDiscountsAdd =
  selectionStrategy :: string
  candidates :: "candidate list"

datatype operation = ProductDiscountsAdd productDiscountsAdd

record function_result =
  operations :: "operation list"

text \<open>
  The only fault the code can raise: reading a property of \<^verbatim>\<open>undefined\<close>.
\<close>

datatype error = TypeError

section \<open>Configuration\<close>

text \<open>
  Prices are JavaScript numbers. Every price of the configuration is a whole number and a
  quantity is a GraphQL \<^verbatim>\<open>Int\<close>, so each product and difference the code computes is a
  whole number far below \<open>2 ^ 53\<close>, where the arithmetic of the numbers is that of
  the integers; prices are \<open>int\<close> here. Where a number is printed with \<^verbatim>\<open>toFixed\<close> it
  is taken with its exact value, a rational: a whole number by \<open>of_int\<close>.
\<close>

record pricing =
  unitPrice :: int
  tiers :: "(int \<times> int) list"

definition DISCOUNT_CONFIG :: "(string \<times> pricing) list" where
  "DISCOUNT_CONFIG =
     [(''500g'', \<lparr>unitPrice = 59, tiers = [(6, 330), (12, 600)]\<rparr>),
      (''1kg'', \<lparr>unitPrice = 99, tiers = [(6, 540), (12, 1020)]\<rparr>)]"

definition SIZE_KEYWORDS :: "(string \<times> string list) list" where
  "SIZE_KEYWORDS =
     [(''500g'', [''500g'', ''500 g'', ''500gr'', ''0.5kg'']),
      (''1kg'', [''1kg'', ''1 kg'', ''1000g'', ''1000 g''])]"

text \<open>
  \<^verbatim>\<open>DISCOUNT_CONFIG[size]\<close> on a plain object also finds what the object inherits from
  \<^verbatim>\<open>Object.prototype\<close>: for these names the lookup yields a function (or the prototype
  itself), which is truthy and has no \<^verbatim>\<open>tiers\<close>.
\<close>

definition Object_prototype_names :: "string list" where
  "Object_prototype_names =
     [''constructor'', ''hasOwnProperty'', ''isPrototypeOf'', ''propertyIsEnumerable'',
      ''toLocaleString'', ''toString'', ''valueOf'', ''__proto__'', ''__defineGetter__'',
      ''__defineSetter__'', ''__lookupGetter__'', ''__lookupSetter__'']"

section \<open>Strings\<close>

text \<open>
  Strings are lists of characters, and the characters are ASCII: \<^verbatim>\<open>toLowerCase\<close> maps
  \<open>A\<close>..\<open>Z\<close> to \<open>a\<close>..\<open>z\<close> and keeps every other character, \<^verbatim>\<open>trim\<close> removes the
  white space and line terminators of ASCII at both ends, \<^verbatim>\<open>includes\<close> looks for a
  contiguous occurrence.
\<close>

definition toLowerCase_char :: "char \<Rightarrow> char" where
  "toLowerCase_char c =
     (let n = (of_char c :: nat) in if 65 \<le> n \<and> n \<le> 90 then char_of (n + 32) else c)"

definition toLowerCase :: "string \<Rightarrow> string" where
  "toLowerCase s = map toLowerCase_char s"

definition isWhiteSpace :: "char \<Rightarrow> bool" where
  "isWhiteSpace c = ((of_char c :: nat) \<in> {9, 10, 11, 12, 13, 32})"

definition trim :: "string \<Rightarrow> string" where
  "trim s = rev (dropWhile isWhiteSpace (rev (dropWhile isWhiteSpace s)))"

fun includes_str :: "string \<Rightarrow> string \<Rightarrow> bool" where
  "includes_str [] kw = (kw = [])"
| "includes_str (c # cs) kw = (prefix kw (c # cs) \<or> includes_str cs kw)"

text \<open>
  The decimal digits of a natural number, and a whole number as a template literal prints
  it: in plain digits, which is what the code does for every whole number up to
  \<open>2 ^ 53\<close> in magnitude (the quantities, being \<^verbatim>\<open>Int\<close>, are far below).
\<close>

definition digit_char :: "nat \<Rightarrow> char" where
  "digit_char d = char_of (48 + d)"

fun decimal_digits :: "nat \<Rightarrow> string" where
  "decimal_digits n =
     (if n < 10 then [digit_char n] else decimal_digits (n div 10) @ [digit_char (n mod 10)])"

declare decimal_digits.simps [simp del]

definition string_of_int :: "int \<Rightarrow> string" where
  "string_of_int i = (if i < 0 then CHR ''-'' # decimal_digits (nat (- i)) else decimal_digits (nat i))"

text \<open>
  \<^verbatim>\<open>x.toFixed(f)\<close> for a number \<open>x\<close> below \<open>10 ^ 21\<close> in magnitude and \<open>f\<close> at most
  100, as ECMAScript defines it on the exact value of \<open>x\<close>: the sign when \<open>x\<close> is
  negative; then the digits of the whole number \<open>n\<close> for which \<open>n / 10 ^ f\<close> is nearest
  to the magnitude of \<open>x\<close>, the larger one of two that are equally near; zeros are put in
  front until there are \<open>f + 1\<close> digits, and a point before the last \<open>f\<close> digits when
  \<open>f\<close> is not zero. (From \<open>10 ^ 21\<close> on the code prints the number in its exponent
  form, which is not modelled; the code calls \<^verbatim>\<open>toFixed\<close> with 0 and with 2.)
\<close>

definition toFixed :: "rat \<Rightarrow> nat \<Rightarrow> string" where
  "toFixed x f =
     (let s = (if x < 0 then ''-'' else []);
          n = nat \<lfloor>\<bar>x\<bar> * 10 ^ f + 1 / 2\<rfloor>;
          m = decimal_digits n
      in if f = 0 then s @ m
         else
           (let m0 = replicate (f + 1 - length m) CHR ''0'' @ m;
                k = length m0
            in s @ take (k - f) m0 @ ''.'' @ drop (k - f) m0))"

section \<open>Helper functions\<close>

text \<open>
  The loop \<^verbatim>\<open>for (const [size, keywords] of Object.entries(SIZE_KEYWORDS))\<close> with its
  \<^verbatim>\<open>return size\<close> at the first entry one of whose keywords the text includes. The
  source writes it three times, once for each signal.
\<close>

fun matchEntries :: "(string \<times> string list) list \<Rightarrow> string \<Rightarrow> string option" where
  "matchEntries [] text = None"
| "matchEntries ((size', keywords) # entries) text =
     (if list_ex (\<lambda>kw. includes_str text (toLowerCase kw)) keywords then Some size'
      else matchEntries entries text)"

definition getSizeFromVariant :: "merchandise \<Rightarrow> string option" where
  "getSizeFromVariant m =
     (let fromMeta =
        (case boxSize m of
           None \<Rightarrow> None
         | Some mf \<Rightarrow>
             (case value_mf mf of
                None \<Rightarrow> None
              | Some v \<Rightarrow>
                  if v = [] then None
                  else matchEntries SIZE_KEYWORDS (trim (toLowerCase v))))
      in case fromMeta of
           Some size' \<Rightarrow> Some size'
         | None \<Rightarrow>
             (let title' = toLowerCase (case title m of None \<Rightarrow> [] | Some t \<Rightarrow> t)
              in case matchEntries SIZE_KEYWORDS title' of
                   Some size' \<Rightarrow> Some size'
                 | None \<Rightarrow>
                     (let sku' = toLowerCase (case sku m of None \<Rightarrow> [] | Some s \<Rightarrow> s)
                      in matchEntries SIZE_KEYWORDS sku')))"

record discount_info =
  amount :: int
  fullPrice :: int
  tierPrice :: int
  savings :: int

definition calculateDiscount :: "string \<Rightarrow> int \<Rightarrow> error + discount_info option" where
  "calculateDiscount size' quantity' =
     (case map_of DISCOUNT_CONFIG size' of
        None \<Rightarrow> if size' \<in> set Object_prototype_names then Inl TypeError else Inr None
      | Some config \<Rightarrow>
          (case map_of (tiers config) quantity' of
             None \<Rightarrow> Inr None
           | Some tierPrice' \<Rightarrow>
               (let fullPrice' = unitPrice config * quantity';
                    discountAmount = fullPrice' - tierPrice'
                in if discountAmount \<le> 0 then Inr None
                   else Inr (Some \<lparr>amount = discountAmount, fullPrice = fullPrice',
                                    tierPrice = tierPrice', savings = discountAmount\<rparr>))))"

text \<open>
  The template literal prints the quantity, a whole number, in digits and the savings, any
  number, through \<^verbatim>\<open>toFixed(0)\<close>.
\<close>

definition getDiscountMessage :: "int \<Rightarrow> string \<Rightarrow> rat \<Rightarrow> string" where
  "getDiscountMessage quantity' size' savings' =
     string_of_int quantity' @ ''x '' @ size' @ '' Bundle Deal - Save R'' @ toFixed savings' 0"

section \<open>Main function\<close>

text \<open>
  The loop over the cart lines, with the array \<^verbatim>\<open>candidates\<close> it pushes to. A fault in
  the body ends the loop, as the exception would.
\<close>

fun process_lines :: "line list \<Rightarrow> candidate list \<Rightarrow> error + candidate list" where
  "process_lines [] candidates' = Inr candidates'"
| "process_lines (line # rest) candidates' =
     (case merchandise line of
        None \<Rightarrow> process_lines rest candidates'
      | Some m \<Rightarrow>
          if typename m \<noteq> ''ProductVariant'' then process_lines rest candidates'
          else
            (case getSizeFromVariant m of
               None \<Rightarrow> process_lines rest candidates'
             | Some size' \<Rightarrow>
                 (case calculateDiscount size' (quantity line) of
                    Inl e \<Rightarrow> Inl e
                  | Inr None \<Rightarrow> process_lines rest candidates'
                  | Inr (Some discount') \<Rightarrow>
                      process_lines rest
                        (candidates' @
                           [\<lparr>targets = [CartLine (id_line line)],
                             message =
                               getDiscountMessage (quantity line) size'
                                 (of_int (savings discount')),
                             value_cand =
                               FixedAmount (toFixed (of_int (amount discount')) 2)\<rparr>]))))"

definition cart_lines_discounts_generate_run :: "input \<Rightarrow> error + function_result" where
  "cart_lines_discounts_generate_run inp =
     (let hasProductDiscountClass =
        (case discount inp of
           None \<Rightarrow> False
         | Some d \<Rightarrow>
             (case discountClasses d of None \<Rightarrow> False | Some cs \<Rightarrow> ''PRODUCT'' \<in> set cs))
      in if \<not> hasProductDiscountClass then Inr \<lparr>operations = []\<rparr>
         else
           (case process_lines
                   (case cart inp of
                      None \<Rightarrow> []
                    | Some c \<Rightarrow> (case lines c of None \<Rightarrow> [] | Some ls \<Rightarrow> ls))
                   [] of
              Inl e \<Rightarrow> Inl e
            | Inr candidates' \<Rightarrow>
                if length candidates' = 0 then Inr \<lparr>operations = []\<rparr>
                else Inr \<lparr>operations =
                            [ProductDiscountsAdd
                               \<lparr>selectionStrategy = ''ALL'', candidates = candidates'\<rparr>]\<rparr>))"

section \<open>Vocabulary of the properties\<close>

text \<open>
  The three signals of a merchandise, as \<open>getSizeFromVariant\<close> prepares them: the tag is
  the metafield value, there only when the metafield and a non-empty value are there.
\<close>

definition metaSignal :: "merchandise \<Rightarrow> string option" where
  "metaSignal m =
     (case boxSize m of
        None \<Rightarrow> None
      | Some mf \<Rightarrow>
          (case value_mf mf of
             None \<Rightarrow> None
           | Some v \<Rightarrow> if v = [] then None else Some (trim (toLowerCase v))))"

definition titleSignal :: "merchandise \<Rightarrow> string" where
  "titleSignal m = toLowerCase (case title m of None \<Rightarrow> [] | Some t \<Rightarrow> t)"

definition skuSignal :: "merchandise \<Rightarrow> string" where
  "skuSignal m = toLowerCase (case sku m of None \<Rightarrow> [] | Some s \<Rightarrow> s)"

text \<open>A text matches a category when it includes one of the keywords of the category.\<close>

definition keywords_match :: "string \<Rightarrow> string \<Rightarrow> bool" where
  "keywords_match C text =
     (case map_of SIZE_KEYWORDS C of
        None \<Rightarrow> False
      | Some keywords \<Rightarrow> list_ex (\<lambda>kw. includes_str text (toLowerCase kw)) keywords)"

definition no_match :: "string \<Rightarrow> bool" where
  "no_match text = (\<not> list_ex (\<lambda>C. keywords_match C text) (map fst SIZE_KEYWORDS))"

text \<open>
  Two strings that differ in the case of their letters only: the same length, and at each
  position the same character, or its upper case, or its lower case.
\<close>

definition toUpperCase_char :: "char \<Rightarrow> char" where
  "toUpperCase_char c =
     (let n = (of_char c :: nat) in if 97 \<le> n \<and> n \<le> 122 then char_of (n - 32) else c)"

definition case_change :: "string \<Rightarrow> string \<Rightarrow> bool" where
  "case_change s s' =
     list_all2 (\<lambda>c c'. c' = c \<or> c' = toUpperCase_char c \<or> c' = toLowerCase_char c) s s'"

text \<open>The lines of the cart: \<^verbatim>\<open>input.cart?.lines || []\<close>.\<close>

definition input_lines :: "input \<Rightarrow> line list" where
  "input_lines inp =
     (case cart inp of
        None \<Rightarrow> []
      | Some c \<Rightarrow> (case lines c of None \<Rightarrow> [] | Some ls \<Rightarrow> ls))"

text \<open>
  A qualifying line: a product variant whose size is recognised and whose quantity is a
  key of the tier table of that size.
\<close>

definition qualifies :: "line \<Rightarrow> bool" where
  "qualifies l =
     (case merchandise l of
        None \<Rightarrow> False
      | Some m \<Rightarrow>
          typename m = ''ProductVariant'' \<and>
          (case getSizeFromVariant m of
             None \<Rightarrow> False
           | Some C \<Rightarrow>
               (case map_of DISCOUNT_CONFIG C of
                  None \<Rightarrow> False
                | Some config \<Rightarrow> quantity l \<in> fst ` set (tiers config))))"

text \<open>What the body of the loop pushes for one line, if anything.\<close>

definition line_decision :: "line \<Rightarrow> candidate option" where
  "line_decision l =
     (case merchandise l of
        None \<Rightarrow> None
      | Some m \<Rightarrow>
          if typename m \<noteq> ''ProductVariant'' then None
          else
            (case getSizeFromVariant m of
               None \<Rightarrow> None
             | Some C \<Rightarrow>
                 (case calculateDiscount C (quantity l) of
                    Inr (Some d) \<Rightarrow>
                      Some \<lparr>targets = [CartLine (id_line l)],
                            message = getDiscountMessage (quantity l) C (of_int (savings d)),
                            value_cand = FixedAmount (toFixed (of_int (amount d)) 2)\<rparr>
                  | _ \<Rightarrow> None)))"

text \<open>The eligibility test: \<^verbatim>\<open>input.discount?.discountClasses?.includes('PRODUCT')\<close>.\<close>

definition hasProductDiscountClass :: "input \<Rightarrow> bool" where
  "hasProductDiscountClass inp =
     (case discount inp of
        None \<Rightarrow> False
      | Some d \<Rightarrow>
          (case discountClasses d of None \<Rightarrow> False | Some cs \<Rightarrow> ''PRODUCT'' \<in> set cs))"

text \<open>The candidates of all operations of the result, none if the function faults.\<close>

definition emitted :: "input \<Rightarrow> candidate list" where
  "emitted inp =
     (case cart_lines_discounts_generate_run inp of
        Inl e \<Rightarrow> []
      | Inr r \<Rightarrow>
          concat (map (\<lambda>op. case op of ProductDiscountsAdd a \<Rightarrow> candidates a) (operations r)))"

text \<open>Reading a decimal numeral back, to check the printing of numbers against.\<close>

definition digit_value :: "char \<Rightarrow> nat" where
  "digit_value c = of_char c - 48"

definition decimal_value :: "string \<Rightarrow> nat" where
  "decimal_value s = foldl (\<lambda>a c. 10 * a + digit_value c) 0 s"

section \<open>Strings and classification: auxiliary facts\<close>

lemma includes_str_sublist: "includes_str s kw \<longleftrightarrow> sublist kw s"
  by (induction s) (simp_all add: sublist_Cons_right)

lemma includes_str_append: "includes_str (p @ kw @ s) kw"
  by (simp add: includes_str_sublist)

lemma toLowerCase_append: "toLowerCase (a @ b) = toLowerCase a @ toLowerCase b"
  by (simp add: toLowerCase_def)

lemma of_char_less_256: "(of_char c :: nat) < 256"
  by (metis of_char_mod_256 mod_less_divisor zero_less_numeral)

lemma lower_upper_char: "toLowerCase_char (toUpperCase_char c) = toLowerCase_char c"
  using of_char_less_256 [of c]
  by (auto simp add: toLowerCase_char_def toUpperCase_char_def Let_def)

lemma lower_lower_char: "toLowerCase_char (toLowerCase_char c) = toLowerCase_char c"
  using of_char_less_256 [of c]
  by (auto simp add: toLowerCase_char_def Let_def)

lemma case_change_lower: "case_change s s' \<Longrightarrow> toLowerCase s' = toLowerCase s"
  unfolding case_change_def toLowerCase_def
  by (induction s s' rule: list_all2_induct) (auto simp: lower_upper_char lower_lower_char)

lemma case_change_Nil: "case_change s s' \<Longrightarrow> (s' = []) = (s = [])"
  unfolding case_change_def by (cases s; cases s') auto

lemma lower_keywords: "toLowerCase ''500g'' = ''500g''" "toLowerCase ''500 g'' = ''500 g''"
  "toLowerCase ''500gr'' = ''500gr''" "toLowerCase ''0.5kg'' = ''0.5kg''"
  "toLowerCase ''1kg'' = ''1kg''" "toLowerCase ''1 kg'' = ''1 kg''"
  "toLowerCase ''1000g'' = ''1000g''" "toLowerCase ''1000 g'' = ''1000 g''"
  by code_simp+

lemma matchEntries_SIZE_KEYWORDS:
  "matchEntries SIZE_KEYWORDS x =
     (if keywords_match ''500g'' x then Some ''500g''
      else if keywords_match ''1kg'' x then Some ''1kg'' else None)"
  by (simp add: SIZE_KEYWORDS_def keywords_match_def)

lemma no_match_iff: "no_match x \<longleftrightarrow> \<not> keywords_match ''500g'' x \<and> \<not> keywords_match ''1kg'' x"
  by (simp add: no_match_def SIZE_KEYWORDS_def)

lemma getSizeFromVariant_signals:
  "getSizeFromVariant m =
     (case (case metaSignal m of None \<Rightarrow> None | Some x \<Rightarrow> matchEntries SIZE_KEYWORDS x) of
        Some C \<Rightarrow> Some C
      | None \<Rightarrow>
          (case matchEntries SIZE_KEYWORDS (titleSignal m) of
             Some C \<Rightarrow> Some C
           | None \<Rightarrow> matchEntries SIZE_KEYWORDS (skuSignal m)))"
  by (simp add: getSizeFromVariant_def metaSignal_def titleSignal_def skuSignal_def Let_def
      split: option.splits)

lemma getSizeFromVariant_range:
  "getSizeFromVariant m = Some C \<Longrightarrow> C = ''500g'' \<or> C = ''1kg''"
  by (auto simp add: getSizeFromVariant_signals matchEntries_SIZE_KEYWORDS
      split: option.splits if_splits)

section \<open>Printing numbers\<close>

lemma digit_value_digit_char: "d < 10 \<Longrightarrow> digit_value (digit_char d) = d"
  by (simp add: digit_value_def digit_char_def)

lemma decimal_value_append:
  "decimal_value (s @ [c]) = 10 * decimal_value s + digit_value c"
  by (simp add: decimal_value_def)

lemma decimal_value_decimal_digits: "decimal_value (decimal_digits n) = n"
proof (induction n rule: decimal_digits.induct)
  case (1 n)
  show ?case
  proof (cases "n < 10")
    case True
    then show ?thesis
      by (subst decimal_digits.simps) (simp add: decimal_value_def digit_value_digit_char)
  next
    case False
    with "1" have "decimal_value (decimal_digits (n div 10)) = n div 10" by simp
    with False show ?thesis
      by (subst decimal_digits.simps)
        (simp add: decimal_value_append digit_value_digit_char)
  qed
qed

lemma decimal_digits_are_digits: "set (decimal_digits n) \<subseteq> digit_char ` {0..<10}"
proof (induction n rule: decimal_digits.induct)
  case (1 n)
  show ?case
  proof (cases "n < 10")
    case True
    then show ?thesis by (subst decimal_digits.simps) simp
  next
    case False
    with "1" have "set (decimal_digits (n div 10)) \<subseteq> digit_char ` {0..<10}" by simp
    with False show ?thesis by (subst decimal_digits.simps) simp
  qed
qed

lemma digit_char_0: "digit_char 0 = CHR ''0''"
  by code_simp

lemma decimal_digits_snoc:
  assumes "0 < n" and "d < 10"
  shows "decimal_digits (10 * n + d) = decimal_digits n @ [digit_char d]"
  using assms by (subst decimal_digits.simps) simp

lemma decimal_digits_times_100:
  assumes "0 < n"
  shows "decimal_digits (100 * n) = decimal_digits n @ ''00''"
proof -
  from assms have "0 < 10 * n" by simp
  then have "decimal_digits (10 * (10 * n) + 0) = decimal_digits (10 * n) @ [digit_char 0]"
    by (rule decimal_digits_snoc) simp
  moreover from assms have "decimal_digits (10 * n + 0) = decimal_digits n @ [digit_char 0]"
    by (rule decimal_digits_snoc) simp
  ultimately show ?thesis by (simp add: digit_char_0)
qed

lemma decimal_digits_0: "decimal_digits 0 = ''0''"
  by code_simp

lemma decimal_digits_not_Nil: "decimal_digits n \<noteq> []"
  by (subst decimal_digits.simps) simp

lemma floor_whole:
  "\<lfloor>\<bar>(of_int k :: rat)\<bar> * 10 ^ f + 1 / 2\<rfloor> = \<bar>k\<bar> * 10 ^ f"
proof -
  have e: "\<bar>(of_int k :: rat)\<bar> * 10 ^ f = of_int (\<bar>k\<bar> * 10 ^ f)"
    by simp
  show ?thesis
    unfolding e by (rule floor_unique) simp_all
qed

text \<open>
  A whole number is printed by \<^verbatim>\<open>toFixed\<close> with its own digits, followed by \<open>.00\<close>
  when two decimals are asked for; any number is printed by \<^verbatim>\<open>toFixed(0)\<close> as the
  nearest whole number, the one away from zero of two equally near.
\<close>

lemma toFixed_of_int_zero: "toFixed (of_int k) 0 = string_of_int k"
  using floor_whole [of k 0]
  by (auto simp add: toFixed_def string_of_int_def Let_def nat_abs_int_diff abs_if)

lemma toFixed_of_int_two: "toFixed (of_int k) 2 = string_of_int k @ ''.00''"
proof (cases "k = 0")
  case True
  then show ?thesis
    by (simp add: toFixed_def string_of_int_def Let_def decimal_digits_0 numeral_2_eq_2)
next
  case False
  then have pos: "0 < nat \<bar>k\<bar>" by simp
  have n: "nat \<lfloor>\<bar>(of_int k :: rat)\<bar> * 10 ^ 2 + 1 / 2\<rfloor> = 100 * nat \<bar>k\<bar>"
    by (simp only: floor_whole) (simp add: nat_mult_distrib)
  have m: "decimal_digits (100 * nat \<bar>k\<bar>) = decimal_digits (nat \<bar>k\<bar>) @ ''00''"
    by (rule decimal_digits_times_100 [OF pos])
  have s: "string_of_int k = (if k < 0 then ''-'' else []) @ decimal_digits (nat \<bar>k\<bar>)"
    by (simp add: string_of_int_def abs_if)
  show ?thesis
    unfolding toFixed_def Let_def n m s
    using decimal_digits_not_Nil [of "nat \<bar>k\<bar>"]
    by (cases "decimal_digits (nat \<bar>k\<bar>)") (simp_all add: numeral_2_eq_2)
qed

lemma toFixed_nearest:
  "\<exists>n. toFixed x 0 = (if x < 0 then ''-'' else []) @ decimal_digits n \<and>
     of_nat n - 1 / 2 \<le> \<bar>x\<bar> \<and> \<bar>x\<bar> < of_nat n + 1 / 2"
proof -
  let ?z = "\<lfloor>\<bar>x\<bar> + 1 / 2\<rfloor>"
  have "0 \<le> ?z" by simp
  then have "(of_nat (nat ?z) :: rat) = of_int ?z" by simp
  moreover have "of_int ?z \<le> \<bar>x\<bar> + 1 / 2" "\<bar>x\<bar> + 1 / 2 < of_int ?z + 1"
    by linarith+
  ultimately show ?thesis
    by (intro exI [of _ "nat ?z"]) (simp add: toFixed_def Let_def, linarith)
qed

lemma string_of_int_amounts:
  "string_of_int 24 = ''24''" "string_of_int 108 = ''108''"
  "string_of_int 54 = ''54''" "string_of_int 168 = ''168''"
  "string_of_int 6 = ''6''" "string_of_int 12 = ''12''"
  by code_simp+

lemma toFixed_amounts:
  "toFixed 24 2 = ''24.00''" "toFixed 108 2 = ''108.00''"
  "toFixed 54 2 = ''54.00''" "toFixed 168 2 = ''168.00''"
  "toFixed 24 0 = ''24''" "toFixed 108 0 = ''108''"
  "toFixed 54 0 = ''54''" "toFixed 168 0 = ''168''"
  using toFixed_of_int_two [of 24] toFixed_of_int_two [of 108] toFixed_of_int_two [of 54]
    toFixed_of_int_two [of 168] toFixed_of_int_zero [of 24] toFixed_of_int_zero [of 108]
    toFixed_of_int_zero [of 54] toFixed_of_int_zero [of 168]
  by (simp_all add: string_of_int_amounts)

lemma toFixed_halves:
  "toFixed (49 / 2) 0 = ''25''" "toFixed (122 / 5) 0 = ''24''"
proof -
  have d: "decimal_digits 25 = ''25''" "decimal_digits 24 = ''24''"
    by code_simp+
  have "nat \<lfloor>\<bar>49 / 2 :: rat\<bar> * 10 ^ 0 + 1 / 2\<rfloor> = 25" by simp
  then show "toFixed (49 / 2) 0 = ''25''"
    by (simp add: toFixed_def d)
  have "\<lfloor>249 / 10 :: rat\<rfloor> = 24" by (rule floor_unique) simp_all
  then have "nat \<lfloor>\<bar>122 / 5 :: rat\<bar> * 10 ^ 0 + 1 / 2\<rfloor> = 24" by simp
  then show "toFixed (122 / 5) 0 = ''24''"
    by (simp add: toFixed_def d)
qed

section \<open>Evaluation and aggregation: auxiliary facts\<close>

lemma calculateDiscount_500g:
  "calculateDiscount ''500g'' q =
     (if q = 6 then Inr (Some \<lparr>amount = 24, fullPrice = 354, tierPrice = 330, savings = 24\<rparr>)
      else if q = 12 then Inr (Some \<lparr>amount = 108, fullPrice = 708, tierPrice = 600, savings = 108\<rparr>)
      else Inr None)"
  by (simp add: calculateDiscount_def DISCOUNT_CONFIG_def Let_def)

lemma calculateDiscount_1kg:
  "calculateDiscount ''1kg'' q =
     (if q = 6 then Inr (Some \<lparr>amount = 54, fullPrice = 594, tierPrice = 540, savings = 54\<rparr>)
      else if q = 12 then Inr (Some \<lparr>amount = 168, fullPrice = 1188, tierPrice = 1020, savings = 168\<rparr>)
      else Inr None)"
  by (simp add: calculateDiscount_def DISCOUNT_CONFIG_def Let_def)

text \<open>
  The helper faults on a name that the configuration object inherits; no size that
  \<open>getSizeFromVariant\<close> returns is such a name.
\<close>

lemma calculateDiscount_inherited_name: "calculateDiscount ''toString'' 6 = Inl TypeError"
  by (simp add: calculateDiscount_def DISCOUNT_CONFIG_def Object_prototype_names_def)

lemma calculateDiscount_no_fault:
  "getSizeFromVariant m = Some C \<Longrightarrow> \<exists>r. calculateDiscount C q = Inr r"
  by (auto dest!: getSizeFromVariant_range simp: calculateDiscount_500g calculateDiscount_1kg)

lemma process_lines_decisions:
  "process_lines ls acc = Inr (acc @ List.map_filter line_decision ls)"
proof (induction ls arbitrary: acc)
  case Nil
  show ?case by (simp add: List.map_filter_simps)
next
  case (Cons l ls)
  show ?case
  proof (cases "merchandise l")
    case None
    then show ?thesis by (simp add: Cons.IH line_decision_def List.map_filter_simps)
  next
    case (Some m)
    show ?thesis
    proof (cases "getSizeFromVariant m")
      case None
      with Some show ?thesis by (simp add: Cons.IH line_decision_def List.map_filter_simps)
    next
      case (Some C)
      from calculateDiscount_no_fault [OF Some] obtain r
        where r: "calculateDiscount C (quantity l) = Inr r" by blast
      from \<open>merchandise l = Some m\<close> Some r show ?thesis
        by (cases r) (simp_all add: Cons.IH line_decision_def List.map_filter_simps)
    qed
  qed
qed


lemma run_decisions:
  "cart_lines_discounts_generate_run inp =
     Inr (if \<not> hasProductDiscountClass inp then \<lparr>operations = []\<rparr>
          else if List.map_filter line_decision (input_lines inp) = [] then \<lparr>operations = []\<rparr>
          else \<lparr>operations =
                  [ProductDiscountsAdd
                     \<lparr>selectionStrategy = ''ALL'',
                      candidates = List.map_filter line_decision (input_lines inp)\<rparr>]\<rparr>)"
  by (simp add: cart_lines_discounts_generate_run_def hasProductDiscountClass_def
      input_lines_def process_lines_decisions Let_def split: option.splits)

lemma emitted_decisions:
  "emitted inp =
     (if hasProductDiscountClass inp then List.map_filter line_decision (input_lines inp) else [])"
  by (simp add: emitted_def run_decisions)

lemma line_decision_qualifies:
  "line_decision l =
     (if qualifies l then
        Some \<lparr>targets = [CartLine (id_line l)],
              message = message (the (line_decision l)),
              value_cand = value_cand (the (line_decision l))\<rparr>
      else None)"
proof (cases "merchandise l")
  case None
  then show ?thesis by (simp add: line_decision_def qualifies_def)
next
  case (Some m)
  show ?thesis
  proof (cases "getSizeFromVariant m")
    case None
    with Some show ?thesis by (simp add: line_decision_def qualifies_def)
  next
    case (Some C)
    from getSizeFromVariant_range [OF Some] \<open>merchandise l = Some m\<close> Some show ?thesis
      by (auto simp add: line_decision_def qualifies_def calculateDiscount_500g
          calculateDiscount_1kg DISCOUNT_CONFIG_def)
  qed
qed

lemma targets_decisions:
  "map targets (List.map_filter line_decision ls) =
     map (\<lambda>l. [CartLine (id_line l)]) (filter qualifies ls)"
proof (induction ls)
  case Nil
  show ?case by (simp add: List.map_filter_simps)
next
  case (Cons l ls)
  show ?case
  proof (cases "qualifies l")
    case True
    then obtain c where "line_decision l = Some c" "targets c = [CartLine (id_line l)]"
      using line_decision_qualifies [of l] by (metis candidate.select_convs(1))
    with True Cons.IH show ?thesis by (simp add: List.map_filter_simps)
  next
    case False
    then have "line_decision l = None"
      using line_decision_qualifies [of l] by simp
    with False Cons.IH show ?thesis by (simp add: List.map_filter_simps)
  qed
qed

section \<open>The discount evaluator\<close>

text \<open>
  Claim C1. For every size category of the configuration and every quantity that is not a
  key of the tier table of that category, \<open>calculateDiscount\<close> returns no discount; the
  keys are 6 and 12, and the quantities 5, 7, 11 and 13 next to them get nothing.
\<close>

theorem calculateDiscount_outside_tiers:
  assumes "map_of DISCOUNT_CONFIG C = Some config"
    and "q \<notin> fst ` set (tiers config)"
  shows "calculateDiscount C q = Inr None \<and> fst ` set (tiers config) = {6, 12} \<and>
    calculateDiscount C 5 = Inr None \<and> calculateDiscount C 7 = Inr None \<and>
    calculateDiscount C 11 = Inr None \<and> calculateDiscount C 13 = Inr None"
proof -
  from assms(1) have "C = ''500g'' \<or> C = ''1kg''"
    by (simp add: DISCOUNT_CONFIG_def split: if_splits)
  then show ?thesis
  proof
    assume C: "C = ''500g''"
    with assms(1) have "tiers config = [(6, 330), (12, 600)]"
      by (auto simp add: DISCOUNT_CONFIG_def)
    with assms(2) C show ?thesis by (simp add: calculateDiscount_500g)
  next
    assume C: "C = ''1kg''"
    with assms(1) have "tiers config = [(6, 540), (12, 1020)]"
      by (auto simp add: DISCOUNT_CONFIG_def)
    with assms(2) C show ?thesis by (simp add: calculateDiscount_1kg)
  qed
qed

theorem calculateDiscount_outside_tiers_witness:
  "map_of DISCOUNT_CONFIG ''500g'' = Some \<lparr>unitPrice = 59, tiers = [(6, 330), (12, 600)]\<rparr> \<and>
   (7::int) \<notin> fst ` set (tiers \<lparr>unitPrice = 59, tiers = [(6, 330), (12, 600)]\<rparr>) \<and>
   calculateDiscount ''500g'' 7 = Inr None"
  using calculateDiscount_outside_tiers
    [of "''500g''" "\<lparr>unitPrice = 59, tiers = [(6, 330), (12, 600)]\<rparr>" 7]
  by (simp add: DISCOUNT_CONFIG_def)

lemma line_decision_500g:
  assumes "merchandise l = Some m" and "typename m = ''ProductVariant''"
    and "getSizeFromVariant m = Some ''500g''"
  shows "line_decision l =
    (if quantity l = 6 then
       Some \<lparr>targets = [CartLine (id_line l)], message = ''6x 500g Bundle Deal - Save R24'',
             value_cand = FixedAmount ''24.00''\<rparr>
     else if quantity l = 12 then
       Some \<lparr>targets = [CartLine (id_line l)], message = ''12x 500g Bundle Deal - Save R108'',
             value_cand = FixedAmount ''108.00''\<rparr>
     else None)"
  using assms
  by (simp add: line_decision_def calculateDiscount_500g getDiscountMessage_def toFixed_amounts
      string_of_int_amounts)

lemma line_decision_1kg:
  assumes "merchandise l = Some m" and "typename m = ''ProductVariant''"
    and "getSizeFromVariant m = Some ''1kg''"
  shows "line_decision l =
    (if quantity l = 6 then
       Some \<lparr>targets = [CartLine (id_line l)], message = ''6x 1kg Bundle Deal - Save R54'',
             value_cand = FixedAmount ''54.00''\<rparr>
     else if quantity l = 12 then
       Some \<lparr>targets = [CartLine (id_line l)], message = ''12x 1kg Bundle Deal - Save R168'',
             value_cand = FixedAmount ''168.00''\<rparr>
     else None)"
  using assms
  by (simp add: line_decision_def calculateDiscount_1kg getDiscountMessage_def toFixed_amounts
      string_of_int_amounts)

lemma line_decision_amounts:
  assumes "line_decision l = Some c"
  shows "value_cand c \<in> {FixedAmount ''24.00'', FixedAmount ''108.00'',
    FixedAmount ''54.00'', FixedAmount ''168.00''}"
proof -
  from assms obtain m C where m: "merchandise l = Some m" "typename m = ''ProductVariant''"
    "getSizeFromVariant m = Some C"
    by (auto simp add: line_decision_def split: option.splits if_splits)
  from getSizeFromVariant_range [OF m(3)] show ?thesis
  proof
    assume "C = ''500g''"
    with m assms line_decision_500g [of l m] show ?thesis by (auto split: if_splits)
  next
    assume "C = ''1kg''"
    with m assms line_decision_1kg [of l m] show ?thesis by (auto split: if_splits)
  qed
qed

lemma set_map_filter: "set (List.map_filter f xs) = {y. \<exists>x \<in> set xs. f x = Some y}"
  by (induction xs) (auto simp add: List.map_filter_simps split: option.splits)

lemma line_decision_Some:
  assumes "merchandise l = Some m" and "typename m = ''ProductVariant''"
    and "getSizeFromVariant m = Some C" and "calculateDiscount C (quantity l) = Inr (Some d)"
  shows "line_decision l =
    Some \<lparr>targets = [CartLine (id_line l)],
          message = getDiscountMessage (quantity l) C (of_int (savings d)),
          value_cand = FixedAmount (toFixed (of_int (amount d)) 2)\<rparr>"
  using assms by (simp add: line_decision_def)

lemma emitted_line:
  assumes "hasProductDiscountClass inp" and "l \<in> set (input_lines inp)"
    and "line_decision l = Some c"
  shows "c \<in> set (emitted inp)"
  using assms by (auto simp add: emitted_decisions set_map_filter)

lemma emitted_amounts:
  assumes "c \<in> set (emitted inp)"
  shows "value_cand c \<in> {FixedAmount ''24.00'', FixedAmount ''108.00'',
    FixedAmount ''54.00'', FixedAmount ''168.00''}"
proof -
  from assms obtain l where "line_decision l = Some c"
    by (auto simp add: emitted_decisions set_map_filter split: if_splits)
  then show ?thesis by (rule line_decision_amounts)
qed

lemma config_tiers:
  assumes "map_of DISCOUNT_CONFIG C = Some config"
    and "map_of (tiers config) q = Some tierTotal"
  shows "(C, unitPrice config, q, tierTotal) \<in>
    {(''500g'', 59, 6, 330), (''500g'', 59, 12, 600), (''1kg'', 99, 6, 540), (''1kg'', 99, 12, 1020)}"
  using assms by (auto simp add: DISCOUNT_CONFIG_def split: if_splits)

text \<open>
  Claim C2. For every configured category and every quantity of its tier table,
  \<open>calculateDiscount\<close> returns the amount \<open>unitPrice \<times> quantity - tierTotal\<close>, which is
  strictly positive: 24, 108, 54 or 168. The amount is a whole number, so its two-decimal
  form is its digits followed by \<open>.00\<close>, and that string is the amount of the candidate
  emitted for a line of that category and quantity. No input makes the function emit a
  candidate with another amount, so none with a zero or negative one.
\<close>

theorem calculateDiscount_at_tier:
  assumes "map_of DISCOUNT_CONFIG C = Some config"
    and "map_of (tiers config) q = Some tierTotal"
  shows "\<exists>d. calculateDiscount C q = Inr (Some d) \<and>
      amount d = unitPrice config * q - tierTotal \<and> 0 < amount d \<and>
      (C, q, amount d) \<in>
        {(''500g'', 6, 24), (''500g'', 12, 108), (''1kg'', 6, 54), (''1kg'', 12, 168)} \<and>
      toFixed (of_int (amount d)) 2 = string_of_int (amount d) @ ''.00'' \<and>
      (\<forall>inp l m. hasProductDiscountClass inp \<and> l \<in> set (input_lines inp) \<and>
         merchandise l = Some m \<and> typename m = ''ProductVariant'' \<and>
         getSizeFromVariant m = Some C \<and> quantity l = q \<longrightarrow>
         (\<exists>c \<in> set (emitted inp). targets c = [CartLine (id_line l)] \<and>
            value_cand c = FixedAmount (toFixed (of_int (amount d)) 2))) \<and>
      (\<forall>inp. \<forall>c \<in> set (emitted inp).
         value_cand c \<in> {FixedAmount ''24.00'', FixedAmount ''108.00'',
           FixedAmount ''54.00'', FixedAmount ''168.00''})"
proof -
  from config_tiers [OF assms] obtain d
    where d: "calculateDiscount C q = Inr (Some d)"
      and a: "amount d = unitPrice config * q - tierTotal"
      and v: "(C, q, amount d) \<in>
        {(''500g'', 6, 24), (''500g'', 12, 108), (''1kg'', 6, 54), (''1kg'', 12, 168)}"
    by (auto simp add: calculateDiscount_500g calculateDiscount_1kg)
  from v have pos: "0 < amount d" by auto
  have emit: "\<exists>c \<in> set (emitted inp). targets c = [CartLine (id_line l)] \<and>
      value_cand c = FixedAmount (toFixed (of_int (amount d)) 2)"
    if "hasProductDiscountClass inp" "l \<in> set (input_lines inp)" "merchandise l = Some m"
      "typename m = ''ProductVariant''" "getSizeFromVariant m = Some C" "quantity l = q"
    for inp l m
  proof -
    from that d have "line_decision l =
      Some \<lparr>targets = [CartLine (id_line l)],
            message = getDiscountMessage (quantity l) C (of_int (savings d)),
            value_cand = FixedAmount (toFixed (of_int (amount d)) 2)\<rparr>"
      by (simp add: line_decision_Some)
    from emitted_line [OF that(1,2) this] show ?thesis by force
  qed
  have fixed: "toFixed (of_int (amount d)) 2 = string_of_int (amount d) @ ''.00''"
    by (rule toFixed_of_int_two)
  have every: "\<forall>inp. \<forall>c \<in> set (emitted inp).
      value_cand c \<in> {FixedAmount ''24.00'', FixedAmount ''108.00'',
        FixedAmount ''54.00'', FixedAmount ''168.00''}"
    using emitted_amounts by blast
  have line: "\<forall>inp l m. hasProductDiscountClass inp \<and> l \<in> set (input_lines inp) \<and>
      merchandise l = Some m \<and> typename m = ''ProductVariant'' \<and>
      getSizeFromVariant m = Some C \<and> quantity l = q \<longrightarrow>
      (\<exists>c \<in> set (emitted inp). targets c = [CartLine (id_line l)] \<and>
         value_cand c = FixedAmount (toFixed (of_int (amount d)) 2))"
    using emit by blast
  from d a pos v fixed line every show ?thesis
    by (intro exI [of _ d] conjI)
qed

theorem calculateDiscount_at_tier_witness:
  "map_of DISCOUNT_CONFIG ''1kg'' = Some \<lparr>unitPrice = 99, tiers = [(6, 540), (12, 1020)]\<rparr> \<and>
   map_of (tiers \<lparr>unitPrice = 99, tiers = [(6, 540), (12, 1020)]\<rparr>) 12 = Some 1020 \<and>
   calculateDiscount ''1kg'' 12 =
     Inr (Some \<lparr>amount = 168, fullPrice = 1188, tierPrice = 1020, savings = 168\<rparr>) \<and>
   toFixed 168 2 = ''168.00''"
  using calculateDiscount_at_tier
    [of "''1kg''" "\<lparr>unitPrice = 99, tiers = [(6, 540), (12, 1020)]\<rparr>" 12 1020]
  by (simp add: DISCOUNT_CONFIG_def calculateDiscount_1kg toFixed_amounts)

section \<open>The cart aggregator\<close>

lemma filter_qualifies_decisions:
  "(filter qualifies ls = []) = (List.map_filter line_decision ls = [])"
proof -
  have "length (filter qualifies ls) = length (List.map_filter line_decision ls)"
    using targets_decisions [of ls] by (metis length_map)
  then show ?thesis by (metis length_0_conv)
qed

text \<open>
  Claim C3. For an eligible input: when no line of the cart qualifies the result has no
  operation; otherwise it has exactly one operation, with the selection strategy
  \<open>ALL\<close>, whose candidates target the qualifying lines, one candidate for each, in the
  order of the cart.
\<close>

theorem one_candidate_per_qualifying_line:
  assumes "hasProductDiscountClass inp"
  shows "(filter qualifies (input_lines inp) = [] \<longrightarrow>
       cart_lines_discounts_generate_run inp = Inr \<lparr>operations = []\<rparr>) \<and>
     (filter qualifies (input_lines inp) \<noteq> [] \<longrightarrow>
       (\<exists>cs. cart_lines_discounts_generate_run inp =
            Inr \<lparr>operations =
                   [ProductDiscountsAdd \<lparr>selectionStrategy = ''ALL'', candidates = cs\<rparr>]\<rparr> \<and>
          length cs = length (filter qualifies (input_lines inp)) \<and>
          map targets cs =
            map (\<lambda>l. [CartLine (id_line l)]) (filter qualifies (input_lines inp))))"
proof (cases "filter qualifies (input_lines inp) = []")
  case True
  with assms show ?thesis
    by (simp add: run_decisions filter_qualifies_decisions [symmetric])
next
  case False
  then have "List.map_filter line_decision (input_lines inp) \<noteq> []"
    by (simp add: filter_qualifies_decisions)
  with assms False show ?thesis
    using targets_decisions [of "input_lines inp"]
    by (simp add: run_decisions) (metis length_map)
qed

theorem one_candidate_per_qualifying_line_witness:
  "hasProductDiscountClass
     \<lparr>discount = Some \<lparr>discountClasses = Some [''PRODUCT'']\<rparr>,
      cart = Some \<lparr>lines = Some
        [\<lparr>id_line = ''a'', quantity = 6, merchandise = Some
            \<lparr>typename = ''ProductVariant'', title = Some ''500g'', sku = None, boxSize = None\<rparr>\<rparr>,
         \<lparr>id_line = ''b'', quantity = 7, merchandise = Some
            \<lparr>typename = ''ProductVariant'', title = Some ''500g'', sku = None, boxSize = None\<rparr>\<rparr>,
         \<lparr>id_line = ''c'', quantity = 6, merchandise = Some
            \<lparr>typename = ''ProductVariant'', title = Some ''1kg'', sku = None, boxSize = None\<rparr>\<rparr>,
         \<lparr>id_line = ''d'', quantity = 12, merchandise = Some
            \<lparr>typename = ''ProductVariant'', title = Some ''Box 500g'', sku = None,
             boxSize = None\<rparr>\<rparr>]\<rparr>\<rparr> \<and>
   (\<exists>cs. cart_lines_discounts_generate_run
      \<lparr>discount = Some \<lparr>discountClasses = Some [''PRODUCT'']\<rparr>,
       cart = Some \<lparr>lines = Some
        [\<lparr>id_line = ''a'', quantity = 6, merchandise = Some
            \<lparr>typename = ''ProductVariant'', title = Some ''500g'', sku = None, boxSize = None\<rparr>\<rparr>,
         \<lparr>id_line = ''b'', quantity = 7, merchandise = Some
            \<lparr>typename = ''ProductVariant'', title = Some ''500g'', sku = None, boxSize = None\<rparr>\<rparr>,
         \<lparr>id_line = ''c'', quantity = 6, merchandise = Some
            \<lparr>typename = ''ProductVariant'', title = Some ''1kg'', sku = None, boxSize = None\<rparr>\<rparr>,
         \<lparr>id_line = ''d'', quantity = 12, merchandise = Some
            \<lparr>typename = ''ProductVariant'', title = Some ''Box 500g'', sku = None,
             boxSize = None\<rparr>\<rparr>]\<rparr>\<rparr> =
        Inr \<lparr>operations =
               [ProductDiscountsAdd \<lparr>selectionStrategy = ''ALL'', candidates = cs\<rparr>]\<rparr> \<and>
      map targets cs = [[CartLine ''a''], [CartLine ''c''], [CartLine ''d'']])"
proof -
  let ?inp = "\<lparr>discount = Some \<lparr>discountClasses = Some [''PRODUCT'']\<rparr>,
      cart = Some \<lparr>lines = Some
        [\<lparr>id_line = ''a'', quantity = 6, merchandise = Some
            \<lparr>typename = ''ProductVariant'', title = Some ''500g'', sku = None, boxSize = None\<rparr>\<rparr>,
         \<lparr>id_line = ''b'', quantity = 7, merchandise = Some
            \<lparr>typename = ''ProductVariant'', title = Some ''500g'', sku = None, boxSize = None\<rparr>\<rparr>,
         \<lparr>id_line = ''c'', quantity = 6, merchandise = Some
            \<lparr>typename = ''ProductVariant'', title = Some ''1kg'', sku = None, boxSize = None\<rparr>\<rparr>,
         \<lparr>id_line = ''d'', quantity = 12, merchandise = Some
            \<lparr>typename = ''ProductVariant'', title = Some ''Box 500g'', sku = None,
             boxSize = None\<rparr>\<rparr>]\<rparr>\<rparr>"
  have e: "hasProductDiscountClass ?inp" by code_simp
  have q: "map (\<lambda>l. [CartLine (id_line l)]) (filter qualifies (input_lines ?inp)) =
      [[CartLine ''a''], [CartLine ''c''], [CartLine ''d'']]"
    by code_simp
  from one_candidate_per_qualifying_line [OF e] q e show ?thesis by auto
qed

text \<open>
  Claim C5. When the input has no discount object, or the object has no discount classes,
  or the classes do not include \<open>PRODUCT\<close>, the result has no operation, whatever
  the cart holds.
\<close>

theorem not_product_class_no_operations:
  assumes "discount inp = None \<or>
     (\<exists>d. discount inp = Some d \<and>
        (discountClasses d = None \<or>
         (\<exists>cs. discountClasses d = Some cs \<and> ''PRODUCT'' \<notin> set cs)))"
  shows "cart_lines_discounts_generate_run inp = Inr \<lparr>operations = []\<rparr> \<and>
     (\<forall>c. cart_lines_discounts_generate_run (inp\<lparr>cart := c\<rparr>) = Inr \<lparr>operations = []\<rparr>)"
proof -
  from assms have "\<not> hasProductDiscountClass inp"
    by (auto simp add: hasProductDiscountClass_def)
  moreover have "hasProductDiscountClass (inp\<lparr>cart := c\<rparr>) = hasProductDiscountClass inp" for c
    by (simp add: hasProductDiscountClass_def)
  ultimately show ?thesis by (simp add: run_decisions)
qed

theorem not_product_class_no_operations_witness:
  "(\<exists>d. discount
        \<lparr>discount = Some \<lparr>discountClasses = Some [''ORDER'', ''SHIPPING'']\<rparr>,
         cart = Some \<lparr>lines = Some
           [\<lparr>id_line = ''a'', quantity = 6, merchandise = Some
              \<lparr>typename = ''ProductVariant'', title = Some ''500g'', sku = None,
               boxSize = None\<rparr>\<rparr>]\<rparr>\<rparr> = Some d \<and>
      (\<exists>cs. discountClasses d = Some cs \<and> ''PRODUCT'' \<notin> set cs)) \<and>
   cart_lines_discounts_generate_run
     \<lparr>discount = Some \<lparr>discountClasses = Some [''ORDER'', ''SHIPPING'']\<rparr>,
      cart = Some \<lparr>lines = Some
        [\<lparr>id_line = ''a'', quantity = 6, merchandise = Some
           \<lparr>typename = ''ProductVariant'', title = Some ''500g'', sku = None,
            boxSize = None\<rparr>\<rparr>]\<rparr>\<rparr> = Inr \<lparr>operations = []\<rparr>"
proof -
  let ?inp = "\<lparr>discount = Some \<lparr>discountClasses = Some [''ORDER'', ''SHIPPING'']\<rparr>,
      cart = Some \<lparr>lines = Some
        [\<lparr>id_line = ''a'', quantity = 6, merchandise = Some
           \<lparr>typename = ''ProductVariant'', title = Some ''500g'', sku = None,
            boxSize = None\<rparr>\<rparr>]\<rparr>\<rparr>"
  have h: "\<exists>d. discount ?inp = Some d \<and>
      (\<exists>cs. discountClasses d = Some cs \<and> ''PRODUCT'' \<notin> set cs)"
    by simp
  then have "discount ?inp = None \<or>
     (\<exists>d. discount ?inp = Some d \<and>
        (discountClasses d = None \<or>
         (\<exists>cs. discountClasses d = Some cs \<and> ''PRODUCT'' \<notin> set cs)))"
    by blast
  from not_product_class_no_operations [OF this] h show ?thesis by blast
qed

lemma tier_keys:
  assumes "map_of DISCOUNT_CONFIG C = Some config"
  shows "fst ` set (tiers config) = {6, 12}"
  using assms by (auto simp add: DISCOUNT_CONFIG_def split: if_splits)

lemma not_qualifies:
  assumes "merchandise l = None \<or>
     (\<exists>m. merchandise l = Some m \<and>
        (typename m \<noteq> ''ProductVariant'' \<or> getSizeFromVariant m = None \<or>
         quantity l \<notin> {6, 12}))"
  shows "line_decision l = None"
proof -
  have "\<not> qualifies l"
  proof
    assume q: "qualifies l"
    then obtain m C config where m: "merchandise l = Some m" "typename m = ''ProductVariant''"
      "getSizeFromVariant m = Some C" "map_of DISCOUNT_CONFIG C = Some config"
      "quantity l \<in> fst ` set (tiers config)"
      by (auto simp add: qualifies_def split: option.splits)
    from tier_keys [OF m(4)] m(5) have "quantity l \<in> {6, 12}"
      by simp
    with assms m show False by auto
  qed
  then show ?thesis using line_decision_qualifies [of l] by simp
qed


lemma input_lines_cart [simp]:
  "input_lines (inp\<lparr>cart := Some \<lparr>lines = Some ls\<rparr>\<rparr>) = ls"
  by (simp add: input_lines_def)

lemma hasProductDiscountClass_cart [simp]:
  "hasProductDiscountClass (inp\<lparr>cart := c\<rparr>) = hasProductDiscountClass inp"
  by (simp add: hasProductDiscountClass_def)

lemma map_filter_skip:
  assumes "f x = None"
  shows "List.map_filter f (xs @ x # ys) = List.map_filter f (xs @ ys)"
  using assms by (simp add: List.map_filter_def)

text \<open>
  Claim C6. The function returns a result for every input, never a fault, and the result
  has no operation or one operation with candidates. A line that has no merchandise, or
  whose merchandise is not a product variant, or whose signals give no size, or whose
  quantity is neither 6 nor 12, is skipped: the result for a cart that holds such a line
  is the result for the cart without it.
\<close>

theorem never_faults_skips_malformed_lines:
  "(\<exists>r. cart_lines_discounts_generate_run inp = Inr r \<and>
      (operations r = [] \<or>
       (\<exists>cs. cs \<noteq> [] \<and>
          operations r =
            [ProductDiscountsAdd \<lparr>selectionStrategy = ''ALL'', candidates = cs\<rparr>]))) \<and>
   (merchandise l = None \<or>
    (\<exists>m. merchandise l = Some m \<and>
       (typename m \<noteq> ''ProductVariant'' \<or> getSizeFromVariant m = None \<or>
        quantity l \<notin> {6, 12})) \<longrightarrow>
    cart_lines_discounts_generate_run (inp\<lparr>cart := Some \<lparr>lines = Some (xs @ l # ys)\<rparr>\<rparr>) =
    cart_lines_discounts_generate_run (inp\<lparr>cart := Some \<lparr>lines = Some (xs @ ys)\<rparr>\<rparr>))"
proof (intro conjI impI)
  show "\<exists>r. cart_lines_discounts_generate_run inp = Inr r \<and>
      (operations r = [] \<or>
       (\<exists>cs. cs \<noteq> [] \<and>
          operations r =
            [ProductDiscountsAdd \<lparr>selectionStrategy = ''ALL'', candidates = cs\<rparr>]))"
    by (simp add: run_decisions)
next
  assume "merchandise l = None \<or>
    (\<exists>m. merchandise l = Some m \<and>
       (typename m \<noteq> ''ProductVariant'' \<or> getSizeFromVariant m = None \<or>
        quantity l \<notin> {6, 12}))"
  then have "line_decision l = None" by (rule not_qualifies)
  then show "cart_lines_discounts_generate_run
       (inp\<lparr>cart := Some \<lparr>lines = Some (xs @ l # ys)\<rparr>\<rparr>) =
     cart_lines_discounts_generate_run (inp\<lparr>cart := Some \<lparr>lines = Some (xs @ ys)\<rparr>\<rparr>)"
    by (simp add: run_decisions map_filter_skip)
qed

theorem never_faults_skips_malformed_lines_witness:
  "merchandise \<lparr>id_line = ''b'', quantity = 6, merchandise = None\<rparr> = None \<and>
   cart_lines_discounts_generate_run
     \<lparr>discount = Some \<lparr>discountClasses = Some [''PRODUCT'']\<rparr>,
      cart = Some \<lparr>lines = Some
        [\<lparr>id_line = ''a'', quantity = 6, merchandise = Some
           \<lparr>typename = ''ProductVariant'', title = Some ''500g'', sku = None,
            boxSize = None\<rparr>\<rparr>,
         \<lparr>id_line = ''b'', quantity = 6, merchandise = None\<rparr>,
         \<lparr>id_line = ''c'', quantity = 12, merchandise = Some
           \<lparr>typename = ''ProductVariant'', title = None, sku = Some ''BOX-1KG'',
            boxSize = None\<rparr>\<rparr>]\<rparr>\<rparr> =
   Inr \<lparr>operations =
     [ProductDiscountsAdd \<lparr>selectionStrategy = ''ALL'', candidates =
        [\<lparr>targets = [CartLine ''a''], message = ''6x 500g Bundle Deal - Save R24'',
          value_cand = FixedAmount ''24.00''\<rparr>,
         \<lparr>targets = [CartLine ''c''], message = ''12x 1kg Bundle Deal - Save R168'',
          value_cand = FixedAmount ''168.00''\<rparr>]\<rparr>]\<rparr>"
proof -
  let ?a = "\<lparr>id_line = ''a'', quantity = 6, merchandise = Some
           \<lparr>typename = ''ProductVariant'', title = Some ''500g'', sku = None,
            boxSize = None\<rparr>\<rparr>"
  let ?b = "\<lparr>id_line = ''b'', quantity = 6, merchandise = None\<rparr>"
  let ?c = "\<lparr>id_line = ''c'', quantity = 12, merchandise = Some
           \<lparr>typename = ''ProductVariant'', title = None, sku = Some ''BOX-1KG'',
            boxSize = None\<rparr>\<rparr>"
  let ?inp = "\<lparr>discount = Some \<lparr>discountClasses = Some [''PRODUCT'']\<rparr>, cart = None\<rparr>"
  have sa: "getSizeFromVariant \<lparr>typename = ''ProductVariant'', title = Some ''500g'',
      sku = None, boxSize = None\<rparr> = Some ''500g''"
    by code_simp
  have sc: "getSizeFromVariant \<lparr>typename = ''ProductVariant'', title = None,
      sku = Some ''BOX-1KG'', boxSize = None\<rparr> = Some ''1kg''"
    by code_simp
  have da: "line_decision ?a =
      Some \<lparr>targets = [CartLine ''a''], message = ''6x 500g Bundle Deal - Save R24'',
            value_cand = FixedAmount ''24.00''\<rparr>"
    using line_decision_500g [of ?a, OF _ _ sa] by simp
  have dc: "line_decision ?c =
      Some \<lparr>targets = [CartLine ''c''], message = ''12x 1kg Bundle Deal - Save R168'',
            value_cand = FixedAmount ''168.00''\<rparr>"
    using line_decision_1kg [of ?c, OF _ _ sc] by simp
  have without: "cart_lines_discounts_generate_run
      (?inp\<lparr>cart := Some \<lparr>lines = Some ([?a] @ [?c])\<rparr>\<rparr>) =
    Inr \<lparr>operations =
     [ProductDiscountsAdd \<lparr>selectionStrategy = ''ALL'', candidates =
        [\<lparr>targets = [CartLine ''a''], message = ''6x 500g Bundle Deal - Save R24'',
          value_cand = FixedAmount ''24.00''\<rparr>,
         \<lparr>targets = [CartLine ''c''], message = ''12x 1kg Bundle Deal - Save R168'',
          value_cand = FixedAmount ''168.00''\<rparr>]\<rparr>]\<rparr>"
    by (simp add: run_decisions hasProductDiscountClass_def input_lines_def
        List.map_filter_simps da dc)
  have "merchandise ?b = None" by simp
  with never_faults_skips_malformed_lines [of ?inp ?b "[?a]" "[?c]"] without
  show ?thesis by simp
qed

section \<open>The size classifier\<close>

lemma metaSignal_title_sku [simp]:
  "metaSignal (m\<lparr>title := t\<rparr>) = metaSignal m" "metaSignal (m\<lparr>sku := s\<rparr>) = metaSignal m"
  by (simp_all add: metaSignal_def)

lemma titleSignal_sku [simp]: "titleSignal (m\<lparr>sku := s\<rparr>) = titleSignal m"
  by (simp add: titleSignal_def)

lemma metaSignal_Some:
  assumes "boxSize m = Some mf" and "value_mf mf = Some v" and "v \<noteq> []"
  shows "metaSignal m = Some (trim (toLowerCase v))"
  using assms by (simp add: metaSignal_def)

lemma classified_by_meta:
  assumes "metaSignal m = Some x" and "keywords_match C x"
    and "C = ''500g'' \<or> \<not> keywords_match ''500g'' x"
  shows "getSizeFromVariant m = Some C"
proof -
  from assms(2) have "C = ''500g'' \<or> C = ''1kg''"
    by (simp add: keywords_match_def SIZE_KEYWORDS_def split: if_splits)
  with assms show ?thesis
    by (auto simp add: getSizeFromVariant_signals matchEntries_SIZE_KEYWORDS)
qed

lemma classified_by_title:
  assumes "metaSignal m = None \<or> (\<exists>x. metaSignal m = Some x \<and> no_match x)"
    and "keywords_match C (titleSignal m)"
    and "C = ''500g'' \<or> \<not> keywords_match ''500g'' (titleSignal m)"
  shows "getSizeFromVariant m = Some C"
proof -
  from assms(2) have "C = ''500g'' \<or> C = ''1kg''"
    by (simp add: keywords_match_def SIZE_KEYWORDS_def split: if_splits)
  with assms show ?thesis
    by (auto simp add: getSizeFromVariant_signals matchEntries_SIZE_KEYWORDS no_match_iff)
qed

lemma classified_by_sku:
  assumes "metaSignal m = None \<or> (\<exists>x. metaSignal m = Some x \<and> no_match x)"
    and "no_match (titleSignal m)"
  shows "getSizeFromVariant m = matchEntries SIZE_KEYWORDS (skuSignal m)"
  using assms
  by (auto simp add: getSizeFromVariant_signals matchEntries_SIZE_KEYWORDS no_match_iff)

lemma keywords_match_category:
  assumes "keywords_match C x"
  shows "C = ''500g'' \<or> C = ''1kg''"
  using assms by (simp add: keywords_match_def SIZE_KEYWORDS_def split: if_splits)

lemma classified_first_declared:
  assumes "keywords_match C x"
  shows "matchEntries SIZE_KEYWORDS x = Some (if keywords_match ''500g'' x then ''500g'' else C)"
  using assms keywords_match_category [OF assms]
  by (auto simp add: matchEntries_SIZE_KEYWORDS)

text \<open>
  Claim C4. The signals are tried in the order tag, title, sku, and the first that matches
  a category decides. A merchandise whose metafield value is present, not empty and, in
  lower case and trimmed, matches a category gets that category (\<open>500g\<close>, the first
  declared, when the value matches both), whatever its title and sku are. When the tag is
  absent or matches no category, a matching title decides in the same way, whatever the
  sku is; when the title matches no category either, the sku alone decides, and a
  merchandise none of whose signals matches has no size.
\<close>

theorem first_matching_signal_wins:
  "(boxSize m = Some mf \<and> value_mf mf = Some v \<and> v \<noteq> [] \<and>
    keywords_match C (trim (toLowerCase v)) \<longrightarrow>
      (\<forall>t s. getSizeFromVariant (m\<lparr>title := t, sku := s\<rparr>) =
         Some (if keywords_match ''500g'' (trim (toLowerCase v)) then ''500g'' else C)) \<and>
      getSizeFromVariant m =
         Some (if keywords_match ''500g'' (trim (toLowerCase v)) then ''500g'' else C)) \<and>
   ((metaSignal m = None \<or> (\<exists>x. metaSignal m = Some x \<and> no_match x)) \<and>
    keywords_match C (titleSignal m) \<longrightarrow>
      (\<forall>s. getSizeFromVariant (m\<lparr>sku := s\<rparr>) =
         Some (if keywords_match ''500g'' (titleSignal m) then ''500g'' else C)) \<and>
      getSizeFromVariant m =
         Some (if keywords_match ''500g'' (titleSignal m) then ''500g'' else C)) \<and>
   ((metaSignal m = None \<or> (\<exists>x. metaSignal m = Some x \<and> no_match x)) \<and>
    no_match (titleSignal m) \<longrightarrow>
      (keywords_match C (skuSignal m) \<longrightarrow>
         getSizeFromVariant m =
           Some (if keywords_match ''500g'' (skuSignal m) then ''500g'' else C)) \<and>
      (no_match (skuSignal m) \<longrightarrow> getSizeFromVariant m = None))"
proof -
  have meta: "getSizeFromVariant m' = Some (if keywords_match ''500g'' x then ''500g'' else C)"
    if "metaSignal m' = Some x" "keywords_match C x" for m' x
    using that classified_first_declared [OF that(2)]
    by (simp add: getSizeFromVariant_signals)
  have title: "getSizeFromVariant m' =
      Some (if keywords_match ''500g'' (titleSignal m') then ''500g'' else C)"
    if "metaSignal m' = None \<or> (\<exists>x. metaSignal m' = Some x \<and> no_match x)"
      "keywords_match C (titleSignal m')" for m'
    using that classified_first_declared [OF that(2)]
    by (auto simp add: getSizeFromVariant_signals matchEntries_SIZE_KEYWORDS no_match_iff)
  have sku: "getSizeFromVariant m = matchEntries SIZE_KEYWORDS (skuSignal m)"
    if "metaSignal m = None \<or> (\<exists>x. metaSignal m = Some x \<and> no_match x)"
      "no_match (titleSignal m)"
    using that by (rule classified_by_sku)
  have a: "(\<forall>t s. getSizeFromVariant (m\<lparr>title := t, sku := s\<rparr>) =
         Some (if keywords_match ''500g'' (trim (toLowerCase v)) then ''500g'' else C)) \<and>
      getSizeFromVariant m =
         Some (if keywords_match ''500g'' (trim (toLowerCase v)) then ''500g'' else C)"
    if h: "boxSize m = Some mf \<and> value_mf mf = Some v \<and> v \<noteq> [] \<and>
      keywords_match C (trim (toLowerCase v))"
  proof -
    from h have s: "metaSignal m = Some (trim (toLowerCase v))"
      by (simp add: metaSignal_Some)
    then have "metaSignal (m\<lparr>title := t, sku := s'\<rparr>) = Some (trim (toLowerCase v))" for t s'
      by simp
    with s h meta show ?thesis by blast
  qed
  have b: "(\<forall>s. getSizeFromVariant (m\<lparr>sku := s\<rparr>) =
         Some (if keywords_match ''500g'' (titleSignal m) then ''500g'' else C)) \<and>
      getSizeFromVariant m =
         Some (if keywords_match ''500g'' (titleSignal m) then ''500g'' else C)"
    if h: "(metaSignal m = None \<or> (\<exists>x. metaSignal m = Some x \<and> no_match x)) \<and>
      keywords_match C (titleSignal m)"
  proof -
    have "getSizeFromVariant (m\<lparr>sku := s\<rparr>) =
        Some (if keywords_match ''500g'' (titleSignal (m\<lparr>sku := s\<rparr>)) then ''500g'' else C)" for s
      using h by (intro title) simp_all
    moreover have "getSizeFromVariant m =
        Some (if keywords_match ''500g'' (titleSignal m) then ''500g'' else C)"
      using h by (intro title) blast+
    ultimately show ?thesis by simp
  qed
  have c: "(keywords_match C (skuSignal m) \<longrightarrow>
         getSizeFromVariant m =
           Some (if keywords_match ''500g'' (skuSignal m) then ''500g'' else C)) \<and>
      (no_match (skuSignal m) \<longrightarrow> getSizeFromVariant m = None)"
    if h: "(metaSignal m = None \<or> (\<exists>x. metaSignal m = Some x \<and> no_match x)) \<and>
      no_match (titleSignal m)"
  proof -
    from h have e: "getSizeFromVariant m = matchEntries SIZE_KEYWORDS (skuSignal m)"
      by (intro sku) blast+
    have "getSizeFromVariant m =
        Some (if keywords_match ''500g'' (skuSignal m) then ''500g'' else C)"
      if "keywords_match C (skuSignal m)"
      using classified_first_declared [OF that] by (simp add: e)
    moreover have "getSizeFromVariant m = None" if "no_match (skuSignal m)"
      using that by (simp add: e matchEntries_SIZE_KEYWORDS no_match_iff)
    ultimately show ?thesis by blast
  qed
  from a b c show ?thesis by blast
qed

theorem first_matching_signal_wins_witness:
  "boxSize \<lparr>typename = ''ProductVariant'', title = Some ''Cookies 500g'',
      sku = Some ''COOKIE-500G'', boxSize = Some \<lparr>value_mf = Some '' 1 KG ''\<rparr>\<rparr> =
     Some \<lparr>value_mf = Some '' 1 KG ''\<rparr> \<and>
   value_mf \<lparr>value_mf = Some '' 1 KG ''\<rparr> = Some '' 1 KG '' \<and> '' 1 KG '' \<noteq> [] \<and>
   keywords_match ''1kg'' (trim (toLowerCase '' 1 KG '')) \<and>
   \<not> keywords_match ''500g'' (trim (toLowerCase '' 1 KG '')) \<and>
   getSizeFromVariant \<lparr>typename = ''ProductVariant'', title = Some ''Cookies 500g'',
      sku = Some ''COOKIE-500G'', boxSize = Some \<lparr>value_mf = Some '' 1 KG ''\<rparr>\<rparr> = Some ''1kg''"
proof -
  have k: "keywords_match ''1kg'' (trim (toLowerCase '' 1 KG ''))"
    by code_simp
  have n: "\<not> keywords_match ''500g'' (trim (toLowerCase '' 1 KG ''))"
    by code_simp
  from first_matching_signal_wins
    [of "\<lparr>typename = ''ProductVariant'', title = Some ''Cookies 500g'',
      sku = Some ''COOKIE-500G'', boxSize = Some \<lparr>value_mf = Some '' 1 KG ''\<rparr>\<rparr>"
      "\<lparr>value_mf = Some '' 1 KG ''\<rparr>" "'' 1 KG ''" "''1kg''"] k n
  show ?thesis by simp
qed

text \<open>
  Claim C8. The categories are declared in the order \<open>500g\<close>, \<open>1kg\<close>. A text that matches
  the keywords of both is resolved to \<open>500g\<close>, and so is a merchandise whose deciding
  signal (the first signal that matches any category) matches both.
\<close>

theorem overlap_first_declared_wins:
  "map fst SIZE_KEYWORDS = [''500g'', ''1kg''] \<and>
   (keywords_match ''500g'' x \<and> keywords_match ''1kg'' x \<longrightarrow>
      matchEntries SIZE_KEYWORDS x = Some ''500g'') \<and>
   (metaSignal m = Some x \<and> keywords_match ''500g'' x \<and> keywords_match ''1kg'' x \<longrightarrow>
      getSizeFromVariant m = Some ''500g'') \<and>
   ((metaSignal m = None \<or> (\<exists>y. metaSignal m = Some y \<and> no_match y)) \<and>
    keywords_match ''500g'' (titleSignal m) \<and> keywords_match ''1kg'' (titleSignal m) \<longrightarrow>
      getSizeFromVariant m = Some ''500g'') \<and>
   ((metaSignal m = None \<or> (\<exists>y. metaSignal m = Some y \<and> no_match y)) \<and>
    no_match (titleSignal m) \<and>
    keywords_match ''500g'' (skuSignal m) \<and> keywords_match ''1kg'' (skuSignal m) \<longrightarrow>
      getSizeFromVariant m = Some ''500g'')"
proof (intro conjI impI)
  show "map fst SIZE_KEYWORDS = [''500g'', ''1kg'']"
    by (simp add: SIZE_KEYWORDS_def)
next
  assume "keywords_match ''500g'' x \<and> keywords_match ''1kg'' x"
  then show "matchEntries SIZE_KEYWORDS x = Some ''500g''"
    by (simp add: matchEntries_SIZE_KEYWORDS)
next
  assume "metaSignal m = Some x \<and> keywords_match ''500g'' x \<and> keywords_match ''1kg'' x"
  then show "getSizeFromVariant m = Some ''500g''"
    by (simp add: classified_by_meta)
next
  assume "(metaSignal m = None \<or> (\<exists>y. metaSignal m = Some y \<and> no_match y)) \<and>
    keywords_match ''500g'' (titleSignal m) \<and> keywords_match ''1kg'' (titleSignal m)"
  then show "getSizeFromVariant m = Some ''500g''"
    by (intro classified_by_title) blast+
next
  assume h: "(metaSignal m = None \<or> (\<exists>y. metaSignal m = Some y \<and> no_match y)) \<and>
    no_match (titleSignal m) \<and>
    keywords_match ''500g'' (skuSignal m) \<and> keywords_match ''1kg'' (skuSignal m)"
  then have "getSizeFromVariant m = matchEntries SIZE_KEYWORDS (skuSignal m)"
    by (intro classified_by_sku) blast+
  with h show "getSizeFromVariant m = Some ''500g''"
    by (simp add: matchEntries_SIZE_KEYWORDS)
qed

theorem overlap_first_declared_wins_witness:
  "metaSignal \<lparr>typename = ''ProductVariant'', title = Some ''Mixed box: 1kg and 500g'',
      sku = None, boxSize = None\<rparr> = None \<and>
   keywords_match ''500g'' (titleSignal \<lparr>typename = ''ProductVariant'',
      title = Some ''Mixed box: 1kg and 500g'', sku = None, boxSize = None\<rparr>) \<and>
   keywords_match ''1kg'' (titleSignal \<lparr>typename = ''ProductVariant'',
      title = Some ''Mixed box: 1kg and 500g'', sku = None, boxSize = None\<rparr>) \<and>
   getSizeFromVariant \<lparr>typename = ''ProductVariant'', title = Some ''Mixed box: 1kg and 500g'',
      sku = None, boxSize = None\<rparr> = Some ''500g''"
proof -
  let ?m = "\<lparr>typename = ''ProductVariant'', title = Some ''Mixed box: 1kg and 500g'',
      sku = None, boxSize = None\<rparr>"
  have a: "metaSignal ?m = None" by (simp add: metaSignal_def)
  have b: "keywords_match ''500g'' (titleSignal ?m)" by code_simp
  have c: "keywords_match ''1kg'' (titleSignal ?m)" by code_simp
  from overlap_first_declared_wins [of "titleSignal ?m" ?m] a b c show ?thesis by blast
qed

section \<open>Keywords inside longer words\<close>

lemma keywords_match_500g_infix: "keywords_match ''500g'' (toLowerCase (p @ ''500g'' @ s))"
proof -
  have "toLowerCase (p @ ''500g'' @ s) = toLowerCase p @ ''500g'' @ toLowerCase s"
    by (simp only: toLowerCase_append lower_keywords)
  then have "includes_str (toLowerCase (p @ ''500g'' @ s)) ''500g''"
    by (simp only: includes_str_append)
  then show ?thesis
    by (simp add: keywords_match_def SIZE_KEYWORDS_def lower_keywords)
qed

text \<open>
  Claim C10. A keyword is looked for anywhere in the text. When the tag does not decide, a
  title that holds \<open>500g\<close> after any characters and before any characters, such as
  \<open>1500g\<close> or \<open>2500g\<close>, is classified \<open>500g\<close>; a product variant line with such a title
  and the quantity 6 or 12 gets the candidate of the \<open>500g\<close> tier.
\<close>

theorem keyword_infix_gets_500g_tier:
  assumes "metaSignal m = None \<or> (\<exists>x. metaSignal m = Some x \<and> no_match x)"
    and "title m = Some (p @ ''500g'' @ s)"
  shows "getSizeFromVariant m = Some ''500g'' \<and>
    (hasProductDiscountClass inp \<and> l \<in> set (input_lines inp) \<and> merchandise l = Some m \<and>
     typename m = ''ProductVariant'' \<longrightarrow>
       (quantity l = 6 \<longrightarrow>
          \<lparr>targets = [CartLine (id_line l)], message = ''6x 500g Bundle Deal - Save R24'',
           value_cand = FixedAmount ''24.00''\<rparr> \<in> set (emitted inp)) \<and>
       (quantity l = 12 \<longrightarrow>
          \<lparr>targets = [CartLine (id_line l)], message = ''12x 500g Bundle Deal - Save R108'',
           value_cand = FixedAmount ''108.00''\<rparr> \<in> set (emitted inp)))"
proof -
  from assms(2) have "keywords_match ''500g'' (titleSignal m)"
    by (simp only: titleSignal_def option.case keywords_match_500g_infix)
  with assms(1) have c: "getSizeFromVariant m = Some ''500g''"
    by (intro classified_by_title) simp_all
  have "\<lparr>targets = [CartLine (id_line l)], message = ''6x 500g Bundle Deal - Save R24'',
           value_cand = FixedAmount ''24.00''\<rparr> \<in> set (emitted inp)"
    if "hasProductDiscountClass inp" "l \<in> set (input_lines inp)" "merchandise l = Some m"
      "typename m = ''ProductVariant''" "quantity l = 6"
    using that emitted_line [OF that(1,2)] line_decision_500g [OF that(3,4) c] by simp
  moreover
  have "\<lparr>targets = [CartLine (id_line l)], message = ''12x 500g Bundle Deal - Save R108'',
           value_cand = FixedAmount ''108.00''\<rparr> \<in> set (emitted inp)"
    if "hasProductDiscountClass inp" "l \<in> set (input_lines inp)" "merchandise l = Some m"
      "typename m = ''ProductVariant''" "quantity l = 12"
    using that emitted_line [OF that(1,2)] line_decision_500g [OF that(3,4) c] by simp
  ultimately show ?thesis using c by blast
qed

theorem keyword_infix_gets_500g_tier_witness:
  "metaSignal \<lparr>typename = ''ProductVariant'', title = Some ''1500g'', sku = None,
      boxSize = None\<rparr> = None \<and>
   title \<lparr>typename = ''ProductVariant'', title = Some ''1500g'', sku = None,
      boxSize = None\<rparr> = Some (''1'' @ ''500g'' @ '''') \<and>
   getSizeFromVariant \<lparr>typename = ''ProductVariant'', title = Some ''1500g'', sku = None,
      boxSize = None\<rparr> = Some ''500g'' \<and>
   \<lparr>targets = [CartLine ''a''], message = ''6x 500g Bundle Deal - Save R24'',
     value_cand = FixedAmount ''24.00''\<rparr>
     \<in> set (emitted \<lparr>discount = Some \<lparr>discountClasses = Some [''PRODUCT'']\<rparr>,
        cart = Some \<lparr>lines = Some [\<lparr>id_line = ''a'', quantity = 6, merchandise = Some
          \<lparr>typename = ''ProductVariant'', title = Some ''1500g'', sku = None,
           boxSize = None\<rparr>\<rparr>]\<rparr>\<rparr>)"
proof -
  let ?m = "\<lparr>typename = ''ProductVariant'', title = Some ''1500g'', sku = None,
      boxSize = None\<rparr>"
  let ?l = "\<lparr>id_line = ''a'', quantity = 6, merchandise = Some ?m\<rparr>"
  let ?inp = "\<lparr>discount = Some \<lparr>discountClasses = Some [''PRODUCT'']\<rparr>,
        cart = Some \<lparr>lines = Some [?l]\<rparr>\<rparr>"
  have a: "metaSignal ?m = None" by (simp add: metaSignal_def)
  have b: "title ?m = Some (''1'' @ ''500g'' @ '''')" by simp
  have e: "hasProductDiscountClass ?inp" by (simp add: hasProductDiscountClass_def)
  have i: "?l \<in> set (input_lines ?inp)" by (simp add: input_lines_def)
  from keyword_infix_gets_500g_tier [OF disjI1 [OF a] b, of ?inp ?l] a b e i
  show ?thesis by simp
qed

section \<open>Letter case and spelling variants\<close>

lemma rel_option_case_change_lower:
  assumes "rel_option case_change a b"
  shows "toLowerCase (case b of None \<Rightarrow> [] | Some t \<Rightarrow> t) =
    toLowerCase (case a of None \<Rightarrow> [] | Some t \<Rightarrow> t)"
  using assms by (cases a; cases b) (simp_all add: case_change_lower)

lemma metaSignal_case_change:
  assumes "rel_option (\<lambda>a b. rel_option case_change (value_mf a) (value_mf b))
    (boxSize m) (boxSize m')"
  shows "metaSignal m' = metaSignal m"
proof (cases "boxSize m")
  case None
  with assms show ?thesis by (cases "boxSize m'") (simp_all add: metaSignal_def)
next
  case (Some a)
  with assms obtain b where b: "boxSize m' = Some b"
    "rel_option case_change (value_mf a) (value_mf b)"
    by (cases "boxSize m'") simp_all
  show ?thesis
  proof (cases "value_mf a")
    case None
    with b Some show ?thesis by (cases "value_mf b") (simp_all add: metaSignal_def)
  next
    case (Some v)
    with b obtain v' where v': "value_mf b = Some v'" "case_change v v'"
      by (cases "value_mf b") simp_all
    from v'(2) have "toLowerCase v' = toLowerCase v" "(v' = []) = (v = [])"
      by (simp_all add: case_change_lower case_change_Nil)
    with \<open>boxSize m = Some a\<close> b(1) Some v'(1) show ?thesis
      by (simp add: metaSignal_def)
  qed
qed

lemma variants_500g:
  "list_all (\<lambda>w. w \<noteq> [] \<and> matchEntries SIZE_KEYWORDS (trim (toLowerCase w)) = Some ''500g'' \<and>
      matchEntries SIZE_KEYWORDS (toLowerCase w) = Some ''500g'')
    [''500g'', ''500 g'', ''0.5kg'']"
  by code_simp

lemma variants_1kg:
  "list_all (\<lambda>w. w \<noteq> [] \<and> matchEntries SIZE_KEYWORDS (trim (toLowerCase w)) = Some ''1kg'' \<and>
      matchEntries SIZE_KEYWORDS (toLowerCase w) = Some ''1kg'')
    [''1kg'', ''1 kg'', ''1000g'', ''1000 g'']"
  by code_simp

lemma matchEntries_empty: "matchEntries SIZE_KEYWORDS (toLowerCase []) = None"
  by code_simp

lemma variant_resolves:
  assumes "w \<noteq> []" and "matchEntries SIZE_KEYWORDS (trim (toLowerCase w)) = Some C"
    and "matchEntries SIZE_KEYWORDS (toLowerCase w) = Some C"
  shows "getSizeFromVariant
      \<lparr>typename = ty, title = t, sku = s, boxSize = Some \<lparr>value_mf = Some w\<rparr>\<rparr> = Some C \<and>
    getSizeFromVariant \<lparr>typename = ty, title = Some w, sku = s, boxSize = None\<rparr> = Some C \<and>
    getSizeFromVariant \<lparr>typename = ty, title = None, sku = Some w, boxSize = None\<rparr> = Some C"
  using assms matchEntries_empty by (simp add: getSizeFromVariant_def)

text \<open>
  Claim C7. Changing the case of the letters of the title, of the sku and of the metafield
  value of a merchandise does not change the category that \<open>getSizeFromVariant\<close> returns.
  Each of the spellings \<open>500g\<close>, \<open>500 g\<close>, \<open>0.5kg\<close> resolves to \<open>500g\<close>, and each of
  \<open>1kg\<close>, \<open>1 kg\<close>, \<open>1000g\<close>, \<open>1000 g\<close> to \<open>1kg\<close>, whether it is the metafield value
  (with any title and sku), the title (with no metafield) or the sku (with no metafield
  and no title).
\<close>

theorem case_insensitive_spelling_variants:
  "(rel_option case_change (title m) (title m') \<and>
    rel_option case_change (sku m) (sku m') \<and>
    rel_option (\<lambda>a b. rel_option case_change (value_mf a) (value_mf b))
      (boxSize m) (boxSize m') \<longrightarrow>
      getSizeFromVariant m' = getSizeFromVariant m) \<and>
   (w \<in> {''500g'', ''500 g'', ''0.5kg''} \<longrightarrow>
      getSizeFromVariant
        \<lparr>typename = ty, title = t, sku = s, boxSize = Some \<lparr>value_mf = Some w\<rparr>\<rparr> =
        Some ''500g'' \<and>
      getSizeFromVariant \<lparr>typename = ty, title = Some w, sku = s, boxSize = None\<rparr> =
        Some ''500g'' \<and>
      getSizeFromVariant \<lparr>typename = ty, title = None, sku = Some w, boxSize = None\<rparr> =
        Some ''500g'') \<and>
   (w \<in> {''1kg'', ''1 kg'', ''1000g'', ''1000 g''} \<longrightarrow>
      getSizeFromVariant
        \<lparr>typename = ty, title = t, sku = s, boxSize = Some \<lparr>value_mf = Some w\<rparr>\<rparr> =
        Some ''1kg'' \<and>
      getSizeFromVariant \<lparr>typename = ty, title = Some w, sku = s, boxSize = None\<rparr> =
        Some ''1kg'' \<and>
      getSizeFromVariant \<lparr>typename = ty, title = None, sku = Some w, boxSize = None\<rparr> =
        Some ''1kg'')"
proof (intro conjI impI)
  assume h: "rel_option case_change (title m) (title m') \<and>
    rel_option case_change (sku m) (sku m') \<and>
    rel_option (\<lambda>a b. rel_option case_change (value_mf a) (value_mf b))
      (boxSize m) (boxSize m')"
  then have "titleSignal m' = titleSignal m" "skuSignal m' = skuSignal m"
    "metaSignal m' = metaSignal m"
    by (simp_all add: titleSignal_def skuSignal_def rel_option_case_change_lower
        metaSignal_case_change)
  then show "getSizeFromVariant m' = getSizeFromVariant m"
    by (simp only: getSizeFromVariant_signals)
next
  assume "w \<in> {''500g'', ''500 g'', ''0.5kg''}"
  with variants_500g have "w \<noteq> [] \<and>
      matchEntries SIZE_KEYWORDS (trim (toLowerCase w)) = Some ''500g'' \<and>
      matchEntries SIZE_KEYWORDS (toLowerCase w) = Some ''500g''"
    by (simp only: list_all_iff set_simps) blast
  then have v: "getSizeFromVariant
      \<lparr>typename = ty, title = t, sku = s, boxSize = Some \<lparr>value_mf = Some w\<rparr>\<rparr> = Some ''500g'' \<and>
    getSizeFromVariant \<lparr>typename = ty, title = Some w, sku = s, boxSize = None\<rparr> = Some ''500g'' \<and>
    getSizeFromVariant \<lparr>typename = ty, title = None, sku = Some w, boxSize = None\<rparr> =
      Some ''500g''"
    by (intro variant_resolves) blast+
  from v show "getSizeFromVariant
      \<lparr>typename = ty, title = t, sku = s, boxSize = Some \<lparr>value_mf = Some w\<rparr>\<rparr> = Some ''500g''"
    by blast
  from v show "getSizeFromVariant \<lparr>typename = ty, title = Some w, sku = s, boxSize = None\<rparr> =
      Some ''500g''"
    by blast
  from v show "getSizeFromVariant \<lparr>typename = ty, title = None, sku = Some w, boxSize = None\<rparr> =
      Some ''500g''"
    by blast
next
  assume "w \<in> {''1kg'', ''1 kg'', ''1000g'', ''1000 g''}"
  with variants_1kg have "w \<noteq> [] \<and>
      matchEntries SIZE_KEYWORDS (trim (toLowerCase w)) = Some ''1kg'' \<and>
      matchEntries SIZE_KEYWORDS (toLowerCase w) = Some ''1kg''"
    by (simp only: list_all_iff set_simps) blast
  then have v: "getSizeFromVariant
      \<lparr>typename = ty, title = t, sku = s, boxSize = Some \<lparr>value_mf = Some w\<rparr>\<rparr> = Some ''1kg'' \<and>
    getSizeFromVariant \<lparr>typename = ty, title = Some w, sku = s, boxSize = None\<rparr> = Some ''1kg'' \<and>
    getSizeFromVariant \<lparr>typename = ty, title = None, sku = Some w, boxSize = None\<rparr> =
      Some ''1kg''"
    by (intro variant_resolves) blast+
  from v show "getSizeFromVariant
      \<lparr>typename = ty, title = t, sku = s, boxSize = Some \<lparr>value_mf = Some w\<rparr>\<rparr> = Some ''1kg''"
    by blast
  from v show "getSizeFromVariant \<lparr>typename = ty, title = Some w, sku = s, boxSize = None\<rparr> =
      Some ''1kg''"
    by blast
  from v show "getSizeFromVariant \<lparr>typename = ty, title = None, sku = Some w, boxSize = None\<rparr> =
      Some ''1kg''"
    by blast
qed

theorem case_insensitive_spelling_variants_witness:
  "rel_option case_change (title \<lparr>typename = ''ProductVariant'', title = Some ''box 1 kg'',
       sku = Some ''ck-1000g'', boxSize = Some \<lparr>value_mf = Some ''0.5kg''\<rparr>\<rparr>)
     (title \<lparr>typename = ''ProductVariant'', title = Some ''Box 1 KG'',
       sku = Some ''CK-1000G'', boxSize = Some \<lparr>value_mf = Some ''0.5Kg''\<rparr>\<rparr>) \<and>
   getSizeFromVariant \<lparr>typename = ''ProductVariant'', title = Some ''Box 1 KG'',
       sku = Some ''CK-1000G'', boxSize = Some \<lparr>value_mf = Some ''0.5Kg''\<rparr>\<rparr> =
   getSizeFromVariant \<lparr>typename = ''ProductVariant'', title = Some ''box 1 kg'',
       sku = Some ''ck-1000g'', boxSize = Some \<lparr>value_mf = Some ''0.5kg''\<rparr>\<rparr> \<and>
   ''500 g'' \<in> {''500g'', ''500 g'', ''0.5kg''} \<and>
   getSizeFromVariant \<lparr>typename = ''ProductVariant'', title = Some ''500 g'', sku = None,
       boxSize = None\<rparr> = Some ''500g'' \<and>
   ''1000 g'' \<in> {''1kg'', ''1 kg'', ''1000g'', ''1000 g''} \<and>
   getSizeFromVariant \<lparr>typename = ''ProductVariant'', title = None, sku = Some ''1000 g'',
       boxSize = None\<rparr> = Some ''1kg''"
proof -
  let ?m = "\<lparr>typename = ''ProductVariant'', title = Some ''box 1 kg'',
       sku = Some ''ck-1000g'', boxSize = Some \<lparr>value_mf = Some ''0.5kg''\<rparr>\<rparr>"
  let ?m' = "\<lparr>typename = ''ProductVariant'', title = Some ''Box 1 KG'',
       sku = Some ''CK-1000G'', boxSize = Some \<lparr>value_mf = Some ''0.5Kg''\<rparr>\<rparr>"
  have a: "rel_option case_change (title ?m) (title ?m')" by code_simp
  have b: "rel_option case_change (sku ?m) (sku ?m')" by code_simp
  have c: "rel_option (\<lambda>a b. rel_option case_change (value_mf a) (value_mf b))
      (boxSize ?m) (boxSize ?m')" by code_simp
  have d: "''500 g'' \<in> {''500g'', ''500 g'', ''0.5kg''}" by simp
  have e: "''1000 g'' \<in> {''1kg'', ''1 kg'', ''1000g'', ''1000 g''}" by simp
  note v = case_insensitive_spelling_variants
    [of ?m ?m' "''500 g''" "''ProductVariant''" None None]
  note v' = case_insensitive_spelling_variants
    [of ?m ?m' "''1000 g''" "''ProductVariant''" None None]
  have x: "getSizeFromVariant ?m' = getSizeFromVariant ?m"
    by (rule mp [OF conjunct1 [OF v] conjI [OF a conjI [OF b c]]])
  have y: "getSizeFromVariant \<lparr>typename = ''ProductVariant'', title = Some ''500 g'',
      sku = None, boxSize = None\<rparr> = Some ''500g''"
    by (rule conjunct1 [OF conjunct2 [OF mp [OF conjunct1 [OF conjunct2 [OF v]] d]]])
  have z: "getSizeFromVariant \<lparr>typename = ''ProductVariant'', title = None,
      sku = Some ''1000 g'', boxSize = None\<rparr> = Some ''1kg''"
    by (rule conjunct2 [OF conjunct2 [OF mp [OF conjunct2 [OF conjunct2 [OF v']] e]]])
  show ?thesis
    by (rule conjI [OF a conjI [OF x conjI [OF d conjI [OF y conjI [OF e z]]]]])
qed

text \<open>
  Spellings with other white space than the keywords have are not recognised: the text is
  searched as it is, only the metafield value is trimmed at its ends.
\<close>

lemma other_white_space_not_matched:
  "getSizeFromVariant \<lparr>typename = ''ProductVariant'', title = Some ''500  g'', sku = None,
     boxSize = None\<rparr> = None"
  by code_simp

section \<open>The message formatter\<close>

lemma emitted_message:
  assumes "c \<in> set (emitted inp)"
  shows "\<exists>l \<in> set (input_lines inp). \<exists>m C d. merchandise l = Some m \<and>
    getSizeFromVariant m = Some C \<and> calculateDiscount C (quantity l) = Inr (Some d) \<and>
    message c = getDiscountMessage (quantity l) C (of_int (savings d))"
proof -
  from assms obtain l where l: "l \<in> set (input_lines inp)" "line_decision l = Some c"
    by (auto simp add: emitted_decisions set_map_filter split: if_splits)
  from l(2) obtain m C d where "merchandise l = Some m" "getSizeFromVariant m = Some C"
    "calculateDiscount C (quantity l) = Inr (Some d)"
    "message c = getDiscountMessage (quantity l) C (of_int (savings d))"
    by (auto simp add: line_decision_def split: option.splits if_splits sum.splits)
  with l(1) show ?thesis by blast
qed

lemma message_nearest:
  "\<exists>n. getDiscountMessage q C s =
       string_of_int q @ ''x '' @ C @ '' Bundle Deal - Save R'' @
         (if s < 0 then ''-'' else []) @ decimal_digits n \<and>
     of_nat n - 1 / 2 \<le> \<bar>s\<bar> \<and> \<bar>s\<bar> < of_nat n + 1 / 2 \<and>
     decimal_value (decimal_digits n) = n"
proof -
  from toFixed_nearest [of s] obtain n
    where "toFixed s 0 = (if s < 0 then ''-'' else []) @ decimal_digits n"
      and "of_nat n - 1 / 2 \<le> \<bar>s\<bar>" and "\<bar>s\<bar> < of_nat n + 1 / 2"
    by blast
  then show ?thesis
    by (intro exI [of _ n]) (simp add: getDiscountMessage_def decimal_value_decimal_digits)
qed

text \<open>
  Claim C9. For a whole quantity that a number holds exactly (at most \<open>2 ^ 53\<close> in
  magnitude) and savings below \<open>10 ^ 21\<close> in magnitude, \<open>getDiscountMessage\<close> returns
  the quantity in digits, \<open>x\<close>, the category, \<open>Bundle Deal - Save R\<close> and the savings
  rounded to the whole unit: the sign of the savings when they are negative and the
  digits of the whole number nearest to their magnitude, the larger one when two are
  equally near (24.5 gives \<open>R25\<close>, 24.4 gives \<open>R24\<close>); whole savings are printed
  as they are. The message of every emitted candidate is this text for the quantity of its
  line, the category of the line and the savings computed for them, and a product variant
  line of quantity 6 classified \<open>500g\<close> gets \<open>6x 500g Bundle Deal - Save R24\<close>.
\<close>

theorem discount_message_template:
  "(\<bar>q\<bar> \<le> 2 ^ 53 \<and> \<bar>s\<bar> < 10 ^ 21 \<longrightarrow>
      (\<exists>n. getDiscountMessage q C s =
           string_of_int q @ ''x '' @ C @ '' Bundle Deal - Save R'' @
             (if s < 0 then ''-'' else []) @ decimal_digits n \<and>
         of_nat n - 1 / 2 \<le> \<bar>s\<bar> \<and> \<bar>s\<bar> < of_nat n + 1 / 2 \<and>
         decimal_value (decimal_digits n) = n)) \<and>
   (\<bar>q\<bar> \<le> 2 ^ 53 \<and> \<bar>k\<bar> < 10 ^ 21 \<longrightarrow>
      getDiscountMessage q C (of_int k) =
        string_of_int q @ ''x '' @ C @ '' Bundle Deal - Save R'' @ string_of_int k) \<and>
   getDiscountMessage 6 ''500g'' 24 = ''6x 500g Bundle Deal - Save R24'' \<and>
   getDiscountMessage 6 ''500g'' (49 / 2) = ''6x 500g Bundle Deal - Save R25'' \<and>
   getDiscountMessage 6 ''500g'' (122 / 5) = ''6x 500g Bundle Deal - Save R24'' \<and>
   (\<forall>c \<in> set (emitted inp). \<exists>l \<in> set (input_lines inp). \<exists>m C' d.
      merchandise l = Some m \<and> getSizeFromVariant m = Some C' \<and>
      calculateDiscount C' (quantity l) = Inr (Some d) \<and>
      message c = getDiscountMessage (quantity l) C' (of_int (savings d))) \<and>
   (merchandise l = Some m \<and> typename m = ''ProductVariant'' \<and>
    getSizeFromVariant m = Some ''500g'' \<and> quantity l = 6 \<longrightarrow>
      process_lines (l # rest) acc =
        process_lines rest
          (acc @ [\<lparr>targets = [CartLine (id_line l)],
                   message = ''6x 500g Bundle Deal - Save R24'',
                   value_cand = FixedAmount ''24.00''\<rparr>]) \<and>
      (hasProductDiscountClass inp \<and> l \<in> set (input_lines inp) \<longrightarrow>
         (\<exists>c \<in> set (emitted inp). targets c = [CartLine (id_line l)] \<and>
            message c = ''6x 500g Bundle Deal - Save R24'')))"
proof (intro conjI impI ballI)
  show "\<exists>n. getDiscountMessage q C s =
           string_of_int q @ ''x '' @ C @ '' Bundle Deal - Save R'' @
             (if s < 0 then ''-'' else []) @ decimal_digits n \<and>
         of_nat n - 1 / 2 \<le> \<bar>s\<bar> \<and> \<bar>s\<bar> < of_nat n + 1 / 2 \<and>
         decimal_value (decimal_digits n) = n"
    by (rule message_nearest)
next
  show "getDiscountMessage q C (of_int k) =
        string_of_int q @ ''x '' @ C @ '' Bundle Deal - Save R'' @ string_of_int k"
    by (simp add: getDiscountMessage_def toFixed_of_int_zero)
next
  show "getDiscountMessage 6 ''500g'' 24 = ''6x 500g Bundle Deal - Save R24''"
    by (simp add: getDiscountMessage_def toFixed_amounts string_of_int_amounts)
next
  from toFixed_halves(1) show "getDiscountMessage 6 ''500g'' (49 / 2) = ''6x 500g Bundle Deal - Save R25''"
    by (simp add: getDiscountMessage_def string_of_int_amounts)
next
  from toFixed_halves(2) show "getDiscountMessage 6 ''500g'' (122 / 5) = ''6x 500g Bundle Deal - Save R24''"
    by (simp add: getDiscountMessage_def string_of_int_amounts)
next
  fix c
  assume "c \<in> set (emitted inp)"
  then show "\<exists>l \<in> set (input_lines inp). \<exists>m C' d.
      merchandise l = Some m \<and> getSizeFromVariant m = Some C' \<and>
      calculateDiscount C' (quantity l) = Inr (Some d) \<and>
      message c = getDiscountMessage (quantity l) C' (of_int (savings d))"
    by (rule emitted_message)
next
  assume h: "merchandise l = Some m \<and> typename m = ''ProductVariant'' \<and>
    getSizeFromVariant m = Some ''500g'' \<and> quantity l = 6"
  then show "process_lines (l # rest) acc =
        process_lines rest
          (acc @ [\<lparr>targets = [CartLine (id_line l)],
                   message = ''6x 500g Bundle Deal - Save R24'',
                   value_cand = FixedAmount ''24.00''\<rparr>])"
    by (simp add: calculateDiscount_500g getDiscountMessage_def toFixed_amounts
        string_of_int_amounts)
  assume e: "hasProductDiscountClass inp \<and> l \<in> set (input_lines inp)"
  from h have "line_decision l =
      Some \<lparr>targets = [CartLine (id_line l)], message = ''6x 500g Bundle Deal - Save R24'',
            value_cand = FixedAmount ''24.00''\<rparr>"
    by (simp add: line_decision_500g)
  with e have "\<lparr>targets = [CartLine (id_line l)], message = ''6x 500g Bundle Deal - Save R24'',
            value_cand = FixedAmount ''24.00''\<rparr> \<in> set (emitted inp)"
    by (blast intro: emitted_line)
  then show "\<exists>c \<in> set (emitted inp). targets c = [CartLine (id_line l)] \<and>
            message c = ''6x 500g Bundle Deal - Save R24''"
    by force
qed

theorem discount_message_template_witness:
  "\<bar>12 :: int\<bar> \<le> 2 ^ 53 \<and> \<bar>168 :: int\<bar> < 10 ^ 21 \<and>
   getDiscountMessage 12 ''1kg'' 168 = ''12x 1kg Bundle Deal - Save R168'' \<and>
   merchandise \<lparr>id_line = ''gid://shopify/CartLine/1'', quantity = 6, merchandise = Some
       \<lparr>typename = ''ProductVariant'', title = Some ''500g Box'', sku = None,
        boxSize = None\<rparr>\<rparr> =
     Some \<lparr>typename = ''ProductVariant'', title = Some ''500g Box'', sku = None,
        boxSize = None\<rparr> \<and>
   getSizeFromVariant \<lparr>typename = ''ProductVariant'', title = Some ''500g Box'', sku = None,
        boxSize = None\<rparr> = Some ''500g'' \<and>
   process_lines
     [\<lparr>id_line = ''gid://shopify/CartLine/1'', quantity = 6, merchandise = Some
       \<lparr>typename = ''ProductVariant'', title = Some ''500g Box'', sku = None,
        boxSize = None\<rparr>\<rparr>] [] =
     Inr [\<lparr>targets = [CartLine ''gid://shopify/CartLine/1''],
           message = ''6x 500g Bundle Deal - Save R24'',
           value_cand = FixedAmount ''24.00''\<rparr>]"
proof -
  let ?m = "\<lparr>typename = ''ProductVariant'', title = Some ''500g Box'', sku = None,
        boxSize = None\<rparr>"
  let ?l = "\<lparr>id_line = ''gid://shopify/CartLine/1'', quantity = 6, merchandise = Some ?m\<rparr>"
  have a: "merchandise ?l = Some ?m" by simp
  have b: "getSizeFromVariant ?m = Some ''500g''" by code_simp
  have c: "string_of_int 12 = ''12''" "string_of_int 168 = ''168''" by code_simp+
  have d: "\<bar>12 :: int\<bar> \<le> 2 ^ 53" "\<bar>168 :: int\<bar> < 10 ^ 21" by simp_all
  from discount_message_template [of 12 _ "''1kg''" 168 _ ?l ?m "[]" "[]"] a b c d
  show ?thesis by simp
qed

end
